theory Spec2Isabelle
  imports Main "HOL-Library.Word" "HOL-Library.AList"
begin

section \<open>Bytes, errors and streams\<close>

text \<open>
  A Python \<open>bytes\<close> value is a list of 8-bit characters, so that the literal
  \<open>b'Objc'\<close> of the source is written \<open>''Objc''\<close>.
\<close>

type_synonym bytes = string

text \<open>
  The exceptions that the decoder and the encoder can raise. \<open>ValueError\<close> is what
  the source raises for an unknown type tag (\<open>raise ValueError('Unknown descriptor type')\<close>)
  and what an \<open>Enum\<close> class raises when it is called on a value that no member has.
  \<open>NameError\<close> is the use of a name the module never binds, \<open>AttributeError\<close> the
  lookup of an attribute an object does not have, \<open>NotImplementedError\<close> what
  \<open>BaseElement.read\<close> raises, \<open>RecursionError\<close> the exhaustion of the
  interpreter's call depth. \<open>FormatError\<close> (truncated input) and
  \<open>UnrepresentableValueError\<close> (a number that does not fit its field) are the two
  failures that the specification gives to the primitive I/O layer.
\<close>

datatype error =
    ValueError
  | NameError
  | AttributeError
  | NotImplementedError
  | RecursionError
  | FormatError
  | UnrepresentableValueError

type_synonym 'a result = "error + 'a"

definition rbind :: "'a result \<Rightarrow> ('a \<Rightarrow> 'b result) \<Rightarrow> 'b result" where
  "rbind r f = (case r of Inl e \<Rightarrow> Inl e | Inr x \<Rightarrow> f x)"

text \<open>
  The state a \<open>read\<close> works on: the bytes of the input stream \<open>fp\<close> that lie after its
  cursor, and the keys that \<open>logger.warning\<close> has reported so far.
\<close>

record rstate =
  unread :: bytes
  warned :: "bytes list"

text \<open>\<open>fp.read(n)\<close>: up to \<open>n\<close> bytes; fewer at the end of the stream, never an error.\<close>

definition fp_read :: "nat \<Rightarrow> rstate \<Rightarrow> bytes \<times> rstate" where
  "fp_read n st = (take n (unread st), st\<lparr>unread := drop n (unread st)\<rparr>)"

text \<open>
  The state a \<open>write\<close> works on is the content of the output stream, whose cursor is at
  its end. A writer returns the number of bytes it has written and the stream after it.
\<close>

type_synonym writer = "bytes \<Rightarrow> (nat \<times> bytes) result"

text \<open>\<open>written = w1(fp); written += w2(fp)\<close>\<close>

definition wthen :: "writer \<Rightarrow> writer \<Rightarrow> writer" where
  "wthen w1 w2 out =
     rbind (w1 out) (\<lambda>(written, out1).
       rbind (w2 out1) (\<lambda>(n, out2). Inr (written + n, out2)))"

section \<open>The primitive I/O layer\<close>

text \<open>Big-endian numbers of a fixed width.\<close>

definition be_nat :: "bytes \<Rightarrow> nat" where
  "be_nat bs = foldl (\<lambda>a c. a * 256 + of_char c) 0 bs"

primrec nat_be :: "nat \<Rightarrow> nat \<Rightarrow> bytes" where
  "nat_be 0 n = []"
| "nat_be (Suc w) n = nat_be w (n div 256) @ [char_of (n mod 256)]"

text \<open>
  Modelled from the spec: \<open>psd_tools2.utils\<close> is not among the source files. The
  specification describes it as fixed-width big-endian numeric read/write, where a
  truncated stream (fewer bytes available than a fixed-width field requires) is fatal.
\<close>

definition read_exact :: "nat \<Rightarrow> rstate \<Rightarrow> (bytes \<times> rstate) result" where
  "read_exact n st = (if length (unread st) < n then Inl FormatError else Inr (fp_read n st))"

text \<open>
  Modelled from the spec: \<open>write_bytes(fp, data)\<close> of \<open>psd_tools2.utils\<close> appends the
  bytes to the stream; the source adds what it returns to \<open>written\<close>, the byte count.
\<close>

definition write_bytes :: "bytes \<Rightarrow> writer" where
  "write_bytes data out = Inr (length data, out @ data)"

text \<open>
  Modelled from the spec: \<open>read_fmt('I', fp)[0]\<close> and \<open>write_fmt(fp, 'I', n)\<close>, an
  unsigned 32-bit big-endian number; a number that does not fit is unrepresentable.
\<close>

definition read_fmt_I :: "rstate \<Rightarrow> (nat \<times> rstate) result" where
  "read_fmt_I st = rbind (read_exact 4 st) (\<lambda>(bs, st1). Inr (be_nat bs, st1))"

definition write_fmt_I :: "nat \<Rightarrow> writer" where
  "write_fmt_I n out =
     (if n < 2 ^ 32 then write_bytes (nat_be 4 n) out else Inl UnrepresentableValueError)"

text \<open>
  Modelled from the spec: the other formats that the source passes to \<open>read_fmt\<close> and
  \<open>write_fmt\<close>. \<open>'i'\<close> and \<open>'q'\<close> are signed numbers of 4 and 8 bytes in two's
  complement, \<open>'?'\<close> is one byte that is true when it is not zero, \<open>'d'\<close> is an
  8-byte IEEE float, \<open>'4s'\<close> is a field of exactly 4 bytes. A Python \<open>int\<close> is an
  \<open>int\<close>; a float is represented by its 64-bit pattern, which is what the stream holds.
\<close>

type_synonym double = "64 word"

text \<open>
  In the program two floats are equal when they are the same number, and a NaN is equal to
  no float, itself included. Two floats with the same pattern are equal in the program
  unless they are NaN, so an equality of patterns is an equality of the program when no
  NaN occurs. A pattern is a NaN when its exponent bits are all ones and its fraction is
  not zero, that is, when it lies above the pattern of infinity once the sign bit is
  dropped.
\<close>

definition is_nan :: "double \<Rightarrow> bool" where
  "is_nan x \<longleftrightarrow> 0x7FF0000000000000 < unat x mod 2 ^ 63"

definition to_signed :: "nat \<Rightarrow> nat \<Rightarrow> int" where
  "to_signed w n = (if n < 2 ^ (8 * w - 1) then int n else int n - 2 ^ (8 * w))"

definition write_signed :: "nat \<Rightarrow> int \<Rightarrow> writer" where
  "write_signed w v out =
     (if - (2 ^ (8 * w - 1)) \<le> v \<and> v < 2 ^ (8 * w - 1)
      then write_bytes (nat_be w (nat (v mod 2 ^ (8 * w)))) out
      else Inl UnrepresentableValueError)"

definition read_fmt_i :: "rstate \<Rightarrow> (int \<times> rstate) result" where
  "read_fmt_i st = rbind (read_exact 4 st) (\<lambda>(bs, st1). Inr (to_signed 4 (be_nat bs), st1))"

definition write_fmt_i :: "int \<Rightarrow> writer" where
  "write_fmt_i v = write_signed 4 v"

definition read_fmt_q :: "rstate \<Rightarrow> (int \<times> rstate) result" where
  "read_fmt_q st = rbind (read_exact 8 st) (\<lambda>(bs, st1). Inr (to_signed 8 (be_nat bs), st1))"

definition write_fmt_q :: "int \<Rightarrow> writer" where
  "write_fmt_q v = write_signed 8 v"

definition read_fmt_bool :: "rstate \<Rightarrow> (bool \<times> rstate) result" where
  "read_fmt_bool st = rbind (read_exact 1 st) (\<lambda>(bs, st1). Inr (be_nat bs \<noteq> 0, st1))"

definition write_fmt_bool :: "bool \<Rightarrow> writer" where
  "write_fmt_bool b = write_bytes (nat_be 1 (if b then 1 else 0))"

definition pack_d :: "double \<Rightarrow> bytes" where
  "pack_d x = nat_be 8 (unat x)"

definition unpack_d :: "bytes \<Rightarrow> double" where
  "unpack_d bs = word_of_nat (be_nat bs)"

definition read_fmt_d :: "rstate \<Rightarrow> (double \<times> rstate) result" where
  "read_fmt_d st = rbind (read_exact 8 st) (\<lambda>(bs, st1). Inr (unpack_d bs, st1))"

definition write_fmt_d :: "double \<Rightarrow> writer" where
  "write_fmt_d x = write_bytes (pack_d x)"

definition pack_4s :: "bytes \<Rightarrow> bytes" where
  "pack_4s b = take 4 (b @ replicate 4 (CHR 0x00))"

definition read_fmt_4sd :: "rstate \<Rightarrow> ((bytes \<times> double) \<times> rstate) result" where
  "read_fmt_4sd st =
     rbind (read_exact 12 st) (\<lambda>(bs, st1). Inr ((take 4 bs, unpack_d (drop 4 bs)), st1))"

definition write_fmt_4sd :: "bytes \<Rightarrow> double \<Rightarrow> writer" where
  "write_fmt_4sd u x = write_bytes (pack_4s u @ pack_d x)"

definition read_fmt_4sI :: "rstate \<Rightarrow> ((bytes \<times> nat) \<times> rstate) result" where
  "read_fmt_4sI st =
     rbind (read_exact 8 st) (\<lambda>(bs, st1). Inr ((take 4 bs, be_nat (drop 4 bs)), st1))"

fun unpack_doubles :: "bytes \<Rightarrow> double list" where
  "unpack_doubles (a # b # c # d # e # f # g # h # rest) =
     unpack_d [a, b, c, d, e, f, g, h] # unpack_doubles rest"
| "unpack_doubles _ = []"

definition read_fmt_doubles :: "nat \<Rightarrow> rstate \<Rightarrow> (double list \<times> rstate) result" where
  "read_fmt_doubles count st =
     rbind (read_exact (8 * count) st) (\<lambda>(bs, st1). Inr (unpack_doubles bs, st1))"

definition write_fmt_4sI_doubles :: "bytes \<Rightarrow> nat \<Rightarrow> double list \<Rightarrow> writer" where
  "write_fmt_4sI_doubles u n xs out =
     (if n < 2 ^ 32
      then write_bytes (pack_4s u @ nat_be 4 n @ concat (map pack_d xs)) out
      else Inl UnrepresentableValueError)"

text \<open>
  Modelled from the spec: \<open>read_unicode_string\<close> and \<open>write_unicode_string\<close> of
  \<open>psd_tools2.utils\<close>. A string is a 4-byte character count \<open>C\<close> followed by \<open>2*C\<close>
  bytes of UTF-16 big-endian text; in the padded mode (the call sites that pass
  \<open>padding=1\<close>) the total length is padded to a multiple of 4 bytes, and the call sites
  that leave the argument out are not padded. A string is the list of its UTF-16 code units;
  the \<open>padding\<close> argument is \<open>None\<close> where the call leaves it out.
\<close>

type_synonym ustring = "16 word list"

definition padding_size :: "nat option \<Rightarrow> nat \<Rightarrow> nat" where
  "padding_size padding written =
     (case padding of None \<Rightarrow> 0 | Some p \<Rightarrow> (4 - written mod 4) mod 4)"

fun utf16_be_decode :: "bytes \<Rightarrow> ustring" where
  "utf16_be_decode (a # b # rest) = word_of_nat (be_nat [a, b]) # utf16_be_decode rest"
| "utf16_be_decode _ = []"

definition utf16_be_encode :: "ustring \<Rightarrow> bytes" where
  "utf16_be_encode s = concat (map (\<lambda>u. nat_be 2 (unat u)) s)"

definition read_unicode_string :: "nat option \<Rightarrow> rstate \<Rightarrow> (ustring \<times> rstate) result" where
  "read_unicode_string padding st =
     rbind (read_fmt_I st) (\<lambda>(num_chars, st1).
     rbind (read_exact (2 * num_chars) st1) (\<lambda>(chars, st2).
     rbind (read_exact (padding_size padding (4 + 2 * num_chars)) st2) (\<lambda>(pad, st3).
       Inr (utf16_be_decode chars, st3))))"

definition write_unicode_string :: "ustring \<Rightarrow> nat option \<Rightarrow> writer" where
  "write_unicode_string s padding =
     wthen (write_fmt_I (length s))
       (wthen (write_bytes (utf16_be_encode s))
          (write_bytes (replicate (padding_size padding (4 + 2 * length s)) (CHR 0x00))))"

text \<open>
  Modelled from the spec: \<open>read_length_block\<close> and \<open>write_length_block\<close> of
  \<open>psd_tools2.utils\<close>, a 4-byte length prefix followed by that many raw bytes. The
  writer that is passed in produces the bytes of the block.
\<close>

definition read_length_block :: "rstate \<Rightarrow> (bytes \<times> rstate) result" where
  "read_length_block st = rbind (read_fmt_I st) (\<lambda>(n, st1). read_exact n st1)"

definition write_length_block :: "writer \<Rightarrow> writer" where
  "write_length_block w out =
     rbind (w []) (\<lambda>(n, body). wthen (write_fmt_I (length body)) (write_bytes body) out)"

section \<open>Constants of the format\<close>

text \<open>
  The members of \<open>OSType\<close> that the source registers a class for, under the names the
  source uses.
\<close>

datatype ostype =
    DESCRIPTOR | LIST | PROPERTY | UNIT_FLOAT | UNIT_FLOATS | DOUBLE | STRING
  | ENUMERATED_REFERENCE | OFFSET | BOOLEAN | LARGE_INTEGER | INTEGER | ENUMERATED
  | RAW_DATA | CLASS1 | CLASS2 | CLASS3 | REFERENCE | ALIAS | GLOBAL_OBJECT
  | OBJECT_ARRAY | PATH | IDENTIFIER | INDEX | NAME

definition all_ostypes :: "ostype list" where
  "all_ostypes =
     [DESCRIPTOR, LIST, PROPERTY, UNIT_FLOAT, UNIT_FLOATS, DOUBLE, STRING,
      ENUMERATED_REFERENCE, OFFSET, BOOLEAN, LARGE_INTEGER, INTEGER, ENUMERATED,
      RAW_DATA, CLASS1, CLASS2, CLASS3, REFERENCE, ALIAS, GLOBAL_OBJECT,
      OBJECT_ARRAY, PATH, IDENTIFIER, INDEX, NAME]"

text \<open>
  \<open>psd_tools2.constants\<close> is not among the source files, so the byte values of its
  three enumerations are a parameter of every definition that needs them: the value of each
  \<open>OSType\<close> member, and the values of the members of \<open>DescriptorClassID\<close> and of
  \<open>UnitFloatType\<close>.
\<close>

record constants =
  OSType_value :: "ostype \<Rightarrow> bytes"
  DescriptorClassID_values :: "bytes list"
  UnitFloatType_values :: "bytes list"

text \<open>
  A key (a classID, an entry key, a typeID, an enum) is either a member of
  \<open>DescriptorClassID\<close>, given by its value, or a \<open>bytes\<close> object. The two are
  different Python objects and never equal, also when the bytes are the same.
\<close>

datatype key = ClassID bytes | RawKey bytes

text \<open>Calling an \<open>Enum\<close> class on a value: the member with that value, or \<open>ValueError\<close>.\<close>

definition DescriptorClassID :: "constants \<Rightarrow> bytes \<Rightarrow> key result" where
  "DescriptorClassID K b =
     (if b \<in> set (DescriptorClassID_values K) then Inr (ClassID b) else Inl ValueError)"

definition OSType :: "constants \<Rightarrow> bytes \<Rightarrow> ostype result" where
  "OSType K b =
     (case find (\<lambda>t. OSType_value K t = b) all_ostypes of
        Some t \<Rightarrow> Inr t
      | None \<Rightarrow> Inl ValueError)"

section \<open>Keys: \<open>read_length_and_key\<close> and \<open>write_length_and_key\<close>\<close>

definition read_length_and_key :: "constants \<Rightarrow> rstate \<Rightarrow> (key \<times> rstate) result" where
  "read_length_and_key K st =
     rbind (read_fmt_I st) (\<lambda>(length, st1).
       case fp_read (if length \<noteq> 0 then length else 4) st1 of (key, st2) \<Rightarrow>
         if length = 0 then
           (case DescriptorClassID K key of
              Inr member \<Rightarrow> Inr (member, st2)
            | Inl e \<Rightarrow>
                if e = ValueError
                then Inr (RawKey key, st2\<lparr>warned := warned st2 @ [key]\<rparr>)
                else Inl e)
         else Inr (RawKey key, st2))"

text \<open>
  \<open>value in DescriptorClassID\<close> is the membership test of the enumeration: it holds of
  a member and of nothing else, and a \<open>bytes\<close> object has no \<open>.value\<close>.
\<close>

definition write_length_and_key :: "key \<Rightarrow> writer" where
  "write_length_and_key v =
     (case v of
        ClassID code \<Rightarrow> wthen (write_fmt_I 0) (write_bytes code)
      | RawKey b \<Rightarrow> wthen (write_fmt_I (length b)) (write_bytes b))"

section \<open>Classes, elements and the type registry\<close>

text \<open>
  The classes that \<open>descriptor.py\<close> defines. \<open>Class_cls\<close> is the one class that the
  module does not register.
\<close>

datatype cls =
    Descriptor_cls | List_cls | Property_cls | UnitFloat_cls | UnitFloats_cls | Double_cls
  | Class_cls | String_cls | EnumeratedReference_cls | Offset_cls | Bool_cls
  | LargeInteger_cls | Integer_cls | Enum_cls | RawData_cls
  | Class1_cls | Class2_cls | Class3_cls | Reference_cls | Alias_cls | GlobalObject_cls
  | ObjectArray_cls | Path_cls | Identifier_cls | Index_cls | Name_cls

text \<open>
  An element is an object: its class and the values of its attributes. Where a class has
  subclasses, the constructor carries the class of the object (\<open>cls(...)\<close> in a
  \<open>classmethod\<close>); the attributes are those of the class that declares them. The
  \<open>items\<close> of a descriptor are an \<open>OrderedDict\<close>, kept as the list of its pairs in
  insertion order. A value in a descriptor or an item of a list is an element or \<open>None\<close>.
  The \<open>unit\<close> of a unit float is a member of \<open>UnitFloatType\<close>, given
  by its value.
\<close>

datatype element =
    Descriptor_obj cls ustring key "(key \<times> element option) list"
  | List_obj cls "element option list"
  | Property_obj ustring key key
  | UnitFloat_obj bytes double
  | UnitFloats_obj bytes "double list"
  | Double_obj double
  | Class_obj cls ustring key
  | String_obj cls ustring
  | EnumeratedReference_obj ustring key key key
  | Offset_obj ustring key int
  | Bool_obj bool
  | LargeInteger_obj int
  | Integer_obj cls int
  | Enum_obj key key
  | RawData_obj cls bytes

fun class_of :: "element \<Rightarrow> cls" where
  "class_of (Descriptor_obj c name classID items) = c"
| "class_of (List_obj c items) = c"
| "class_of (Property_obj name classID keyID) = Property_cls"
| "class_of (UnitFloat_obj u x) = UnitFloat_cls"
| "class_of (UnitFloats_obj u xs) = UnitFloats_cls"
| "class_of (Double_obj x) = Double_cls"
| "class_of (Class_obj c name classID) = c"
| "class_of (String_obj c s) = c"
| "class_of (EnumeratedReference_obj name classID typeID enum) = EnumeratedReference_cls"
| "class_of (Offset_obj name classID v) = Offset_cls"
| "class_of (Bool_obj b) = Bool_cls"
| "class_of (LargeInteger_obj v) = LargeInteger_cls"
| "class_of (Integer_obj c v) = c"
| "class_of (Enum_obj typeID enum) = Enum_cls"
| "class_of (RawData_obj c b) = c"

text \<open>
  The class in whose body \<open>read\<close> and \<open>write\<close> are found: a class with the body
  \<open>pass\<close> inherits both from the class it names as its base.
\<close>

fun defining_class :: "cls \<Rightarrow> cls" where
  "defining_class Class1_cls = Class_cls"
| "defining_class Class2_cls = Class_cls"
| "defining_class Class3_cls = Class_cls"
| "defining_class Reference_cls = List_cls"
| "defining_class Alias_cls = RawData_cls"
| "defining_class GlobalObject_cls = Descriptor_cls"
| "defining_class ObjectArray_cls = Descriptor_cls"
| "defining_class Path_cls = RawData_cls"
| "defining_class Identifier_cls = Integer_cls"
| "defining_class Index_cls = Integer_cls"
| "defining_class Name_cls = String_cls"
| "defining_class c = c"

text \<open>
  The decorator \<open>register(ostype)\<close> does two things to the class below it:
  \<open>TYPES[ostype] = cls\<close> and \<open>setattr(cls, 'ostype', ostype)\<close>. These are the
  contents of \<open>TYPES\<close> and the \<open>ostype\<close> attribute of each class once the module
  is loaded. \<open>Class\<close> is not registered and has no such attribute.
\<close>

fun TYPES :: "ostype \<Rightarrow> cls option" where
  "TYPES DESCRIPTOR = Some Descriptor_cls"
| "TYPES LIST = Some List_cls"
| "TYPES PROPERTY = Some Property_cls"
| "TYPES UNIT_FLOAT = Some UnitFloat_cls"
| "TYPES UNIT_FLOATS = Some UnitFloats_cls"
| "TYPES DOUBLE = Some Double_cls"
| "TYPES STRING = Some String_cls"
| "TYPES ENUMERATED_REFERENCE = Some EnumeratedReference_cls"
| "TYPES OFFSET = Some Offset_cls"
| "TYPES BOOLEAN = Some Bool_cls"
| "TYPES LARGE_INTEGER = Some LargeInteger_cls"
| "TYPES INTEGER = Some Integer_cls"
| "TYPES ENUMERATED = Some Enum_cls"
| "TYPES RAW_DATA = Some RawData_cls"
| "TYPES CLASS1 = Some Class1_cls"
| "TYPES CLASS2 = Some Class2_cls"
| "TYPES CLASS3 = Some Class3_cls"
| "TYPES REFERENCE = Some Reference_cls"
| "TYPES ALIAS = Some Alias_cls"
| "TYPES GLOBAL_OBJECT = Some GlobalObject_cls"
| "TYPES OBJECT_ARRAY = Some ObjectArray_cls"
| "TYPES PATH = Some Path_cls"
| "TYPES IDENTIFIER = Some Identifier_cls"
| "TYPES INDEX = Some Index_cls"
| "TYPES NAME = Some Name_cls"

fun cls_ostype :: "cls \<Rightarrow> ostype option" where
  "cls_ostype Descriptor_cls = Some DESCRIPTOR"
| "cls_ostype List_cls = Some LIST"
| "cls_ostype Property_cls = Some PROPERTY"
| "cls_ostype UnitFloat_cls = Some UNIT_FLOAT"
| "cls_ostype UnitFloats_cls = Some UNIT_FLOATS"
| "cls_ostype Double_cls = Some DOUBLE"
| "cls_ostype Class_cls = None"
| "cls_ostype String_cls = Some STRING"
| "cls_ostype EnumeratedReference_cls = Some ENUMERATED_REFERENCE"
| "cls_ostype Offset_cls = Some OFFSET"
| "cls_ostype Bool_cls = Some BOOLEAN"
| "cls_ostype LargeInteger_cls = Some LARGE_INTEGER"
| "cls_ostype Integer_cls = Some INTEGER"
| "cls_ostype Enum_cls = Some ENUMERATED"
| "cls_ostype RawData_cls = Some RAW_DATA"
| "cls_ostype Class1_cls = Some CLASS1"
| "cls_ostype Class2_cls = Some CLASS2"
| "cls_ostype Class3_cls = Some CLASS3"
| "cls_ostype Reference_cls = Some REFERENCE"
| "cls_ostype Alias_cls = Some ALIAS"
| "cls_ostype GlobalObject_cls = Some GLOBAL_OBJECT"
| "cls_ostype ObjectArray_cls = Some OBJECT_ARRAY"
| "cls_ostype Path_cls = Some PATH"
| "cls_ostype Identifier_cls = Some IDENTIFIER"
| "cls_ostype Index_cls = Some INDEX"
| "cls_ostype Name_cls = Some NAME"

text \<open>
  What \<open>decoder.read(fp)\<close> gives for a class taken from the registry: a value, which
  the source compares with \<open>None\<close>, and the stream after it.
\<close>

type_synonym decoder = "rstate \<Rightarrow> (element option \<times> rstate) result"

type_synonym reader = "rstate \<Rightarrow> (element \<times> rstate) result"

definition as_decoder :: "reader \<Rightarrow> decoder" where
  "as_decoder rd st = rbind (rd st) (\<lambda>(v, st1). Inr (Some v, st1))"

text \<open>\<open>for _ in range(count): ... items.append(x)\<close>, where the body yields \<open>x\<close>.\<close>

primrec for_range ::
  "nat \<Rightarrow> (rstate \<Rightarrow> ('a \<times> rstate) result) \<Rightarrow> 'a list \<Rightarrow> rstate \<Rightarrow> ('a list \<times> rstate) result"
where
  "for_range 0 body items st = Inr (items, st)"
| "for_range (Suc n) body items st =
     rbind (body st) (\<lambda>(x, st1). for_range n body (items @ [x]) st1)"

section \<open>Descriptor and List\<close>

text \<open>
  The attribute \<open>items\<close> of \<open>Descriptor\<close> has \<open>converter=OrderedDict\<close>: the list of
  pairs is made into an ordered dictionary, where a pair whose key is already present
  replaces the value and keeps the place of the key.
\<close>

definition OrderedDict :: "('k \<times> 'v) list \<Rightarrow> ('k \<times> 'v) list" where
  "OrderedDict pairs = foldl (\<lambda>d (k, v). AList.update k v d) [] pairs"

definition Descriptor_init ::
  "cls \<Rightarrow> ustring \<Rightarrow> key \<Rightarrow> (key \<times> element option) list \<Rightarrow> element"
where
  "Descriptor_init c name classID items = Descriptor_obj c name classID (OrderedDict items)"

text \<open>
  The body of the loop of \<open>Descriptor.read\<close>. \<open>TYPES_get\<close> is \<open>TYPES.get\<close> followed
  by the \<open>read\<close> of the class found. The module does not import \<open>warnings\<close>, so the
  line \<open>warnings.warn(...)\<close> raises \<open>NameError\<close>.
\<close>

definition Descriptor_read_item ::
  "constants \<Rightarrow> (ostype \<Rightarrow> decoder option) \<Rightarrow> rstate
     \<Rightarrow> ((key \<times> element option) \<times> rstate) result"
where
  "Descriptor_read_item K TYPES_get st =
     rbind (read_length_and_key K st) (\<lambda>(key, st1).
       case fp_read 4 st1 of (tag, st2) \<Rightarrow>
         rbind (OSType K tag) (\<lambda>ostype.
           case TYPES_get ostype of
             None \<Rightarrow> Inl ValueError
           | Some decoder \<Rightarrow>
               rbind (decoder st2) (\<lambda>(v, st3).
                 case v of
                   None \<Rightarrow> Inl NameError
                 | Some x \<Rightarrow> Inr ((key, v), st3))))"

definition Descriptor_read :: "constants \<Rightarrow> (ostype \<Rightarrow> decoder option) \<Rightarrow> cls \<Rightarrow> reader" where
  "Descriptor_read K TYPES_get c st =
     rbind (read_unicode_string (Some 1) st) (\<lambda>(name, st1).
     rbind (read_length_and_key K st1) (\<lambda>(classID, st2).
     rbind (read_fmt_I st2) (\<lambda>(count, st3).
     rbind (for_range count (Descriptor_read_item K TYPES_get) [] st3) (\<lambda>(items, st4).
       Inr (Descriptor_init c name classID items, st4)))))"

text \<open>
  The body of the loop of \<open>List.read\<close>, which appends what the decoder returns as it
  is.
\<close>

definition List_read_item ::
  "constants \<Rightarrow> (ostype \<Rightarrow> decoder option) \<Rightarrow> rstate \<Rightarrow> (element option \<times> rstate) result"
where
  "List_read_item K TYPES_get st =
     (case fp_read 4 st of (tag, st1) \<Rightarrow>
        rbind (OSType K tag) (\<lambda>key.
          case TYPES_get key of
            None \<Rightarrow> Inl ValueError
          | Some decoder \<Rightarrow> decoder st1))"

definition List_read :: "constants \<Rightarrow> (ostype \<Rightarrow> decoder option) \<Rightarrow> cls \<Rightarrow> reader" where
  "List_read K TYPES_get c st =
     rbind (read_fmt_I st) (\<lambda>(count, st1).
     rbind (for_range count (List_read_item K TYPES_get) [] st1) (\<lambda>(items, st2).
       Inr (List_obj c items, st2)))"

section \<open>Scalar and structural classes\<close>

definition Property_read :: "constants \<Rightarrow> reader" where
  "Property_read K st =
     rbind (read_unicode_string None st) (\<lambda>(name, st1).
     rbind (read_length_and_key K st1) (\<lambda>(classID, st2).
     rbind (read_length_and_key K st2) (\<lambda>(keyID, st3).
       Inr (Property_obj name classID keyID, st3))))"

definition Property_write :: "ustring \<Rightarrow> key \<Rightarrow> key \<Rightarrow> writer" where
  "Property_write name classID keyID =
     wthen (write_unicode_string name None)
       (wthen (write_length_and_key classID) (write_length_and_key keyID))"

text \<open>
  The attribute \<open>unit\<close> has \<open>converter=UnitFloatType\<close>: the constructor calls the
  enumeration on the value it is given.
\<close>

definition UnitFloatType :: "constants \<Rightarrow> bytes \<Rightarrow> bytes result" where
  "UnitFloatType K b = (if b \<in> set (UnitFloatType_values K) then Inr b else Inl ValueError)"

definition UnitFloat_init :: "constants \<Rightarrow> bytes \<Rightarrow> double \<Rightarrow> element result" where
  "UnitFloat_init K u x = rbind (UnitFloatType K u) (\<lambda>m. Inr (UnitFloat_obj m x))"

definition UnitFloat_read :: "constants \<Rightarrow> reader" where
  "UnitFloat_read K st =
     rbind (read_fmt_4sd st) (\<lambda>((u, x), st1).
     rbind (UnitFloat_init K u x) (\<lambda>e. Inr (e, st1)))"

definition UnitFloat_write :: "bytes \<Rightarrow> double \<Rightarrow> writer" where
  "UnitFloat_write u x = write_fmt_4sd u x"

definition UnitFloats_init :: "constants \<Rightarrow> bytes \<Rightarrow> double list \<Rightarrow> element result" where
  "UnitFloats_init K u xs = rbind (UnitFloatType K u) (\<lambda>m. Inr (UnitFloats_obj m xs))"

definition UnitFloats_read :: "constants \<Rightarrow> reader" where
  "UnitFloats_read K st =
     rbind (read_fmt_4sI st) (\<lambda>((u, count), st1).
     rbind (read_fmt_doubles count st1) (\<lambda>(xs, st2).
     rbind (UnitFloats_init K u xs) (\<lambda>e. Inr (e, st2))))"

definition UnitFloats_write :: "bytes \<Rightarrow> double list \<Rightarrow> writer" where
  "UnitFloats_write u xs = write_fmt_4sI_doubles u (length xs) xs"

definition Double_read :: reader where
  "Double_read st = rbind (read_fmt_d st) (\<lambda>(x, st1). Inr (Double_obj x, st1))"

definition Double_write :: "double \<Rightarrow> writer" where
  "Double_write x = write_fmt_d x"

definition Class_read :: "constants \<Rightarrow> cls \<Rightarrow> reader" where
  "Class_read K c st =
     rbind (read_unicode_string None st) (\<lambda>(name, st1).
     rbind (read_length_and_key K st1) (\<lambda>(classID, st2).
       Inr (Class_obj c name classID, st2)))"

definition Class_write :: "ustring \<Rightarrow> key \<Rightarrow> writer" where
  "Class_write name classID =
     wthen (write_unicode_string name None) (write_length_and_key classID)"

definition String_read :: "cls \<Rightarrow> reader" where
  "String_read c st =
     rbind (read_unicode_string (Some 1) st) (\<lambda>(s, st1). Inr (String_obj c s, st1))"

definition String_write :: "ustring \<Rightarrow> writer" where
  "String_write s = write_unicode_string s (Some 1)"

definition EnumeratedReference_read :: "constants \<Rightarrow> reader" where
  "EnumeratedReference_read K st =
     rbind (read_unicode_string None st) (\<lambda>(name, st1).
     rbind (read_length_and_key K st1) (\<lambda>(classID, st2).
     rbind (read_length_and_key K st2) (\<lambda>(typeID, st3).
     rbind (read_length_and_key K st3) (\<lambda>(enum, st4).
       Inr (EnumeratedReference_obj name classID typeID enum, st4)))))"

definition EnumeratedReference_write :: "ustring \<Rightarrow> key \<Rightarrow> key \<Rightarrow> key \<Rightarrow> writer" where
  "EnumeratedReference_write name classID typeID enum =
     wthen (write_unicode_string name None)
       (wthen (write_length_and_key classID)
          (wthen (write_length_and_key typeID) (write_length_and_key enum)))"

definition Offset_read :: "constants \<Rightarrow> reader" where
  "Offset_read K st =
     rbind (read_unicode_string None st) (\<lambda>(name, st1).
     rbind (read_length_and_key K st1) (\<lambda>(classID, st2).
     rbind (read_fmt_I st2) (\<lambda>(offset, st3).
       Inr (Offset_obj name classID (int offset), st3))))"

definition Offset_write :: "ustring \<Rightarrow> key \<Rightarrow> int \<Rightarrow> writer" where
  "Offset_write name classID v =
     wthen (write_unicode_string name None)
       (wthen (write_length_and_key classID)
          (\<lambda>out. if v < 0 then Inl UnrepresentableValueError else write_fmt_I (nat v) out))"

definition Bool_read :: reader where
  "Bool_read st = rbind (read_fmt_bool st) (\<lambda>(b, st1). Inr (Bool_obj b, st1))"

definition Bool_write :: "bool \<Rightarrow> writer" where
  "Bool_write b = write_fmt_bool b"

definition LargeInteger_read :: reader where
  "LargeInteger_read st = rbind (read_fmt_q st) (\<lambda>(v, st1). Inr (LargeInteger_obj v, st1))"

definition LargeInteger_write :: "int \<Rightarrow> writer" where
  "LargeInteger_write v = write_fmt_q v"

definition Integer_read :: "cls \<Rightarrow> reader" where
  "Integer_read c st = rbind (read_fmt_i st) (\<lambda>(v, st1). Inr (Integer_obj c v, st1))"

definition Integer_write :: "int \<Rightarrow> writer" where
  "Integer_write v = write_fmt_i v"

definition Enum_read :: "constants \<Rightarrow> reader" where
  "Enum_read K st =
     rbind (read_length_and_key K st) (\<lambda>(typeID, st1).
     rbind (read_length_and_key K st1) (\<lambda>(enum, st2).
       Inr (Enum_obj typeID enum, st2)))"

definition Enum_write :: "key \<Rightarrow> key \<Rightarrow> writer" where
  "Enum_write typeID enum = wthen (write_length_and_key typeID) (write_length_and_key enum)"

definition RawData_read :: "cls \<Rightarrow> reader" where
  "RawData_read c st = rbind (read_length_block st) (\<lambda>(b, st1). Inr (RawData_obj c b, st1))"

definition RawData_write :: "bytes \<Rightarrow> writer" where
  "RawData_write b = write_length_block (write_bytes b)"

section \<open>Reading and writing an element of any class\<close>

text \<open>
  \<open>c.read(fp)\<close> for a class \<open>c\<close>: the \<open>read\<close> of the class that defines it, with
  \<open>cls\<close> bound to \<open>c\<close>.
\<close>

definition cls_read :: "constants \<Rightarrow> (ostype \<Rightarrow> decoder option) \<Rightarrow> cls \<Rightarrow> reader" where
  "cls_read K TYPES_get c =
     (case defining_class c of
        Descriptor_cls \<Rightarrow> Descriptor_read K TYPES_get c
      | List_cls \<Rightarrow> List_read K TYPES_get c
      | Property_cls \<Rightarrow> Property_read K
      | UnitFloat_cls \<Rightarrow> UnitFloat_read K
      | UnitFloats_cls \<Rightarrow> UnitFloats_read K
      | Double_cls \<Rightarrow> Double_read
      | Class_cls \<Rightarrow> Class_read K c
      | String_cls \<Rightarrow> String_read c
      | EnumeratedReference_cls \<Rightarrow> EnumeratedReference_read K
      | Offset_cls \<Rightarrow> Offset_read K
      | Bool_cls \<Rightarrow> Bool_read
      | LargeInteger_cls \<Rightarrow> LargeInteger_read
      | Integer_cls \<Rightarrow> Integer_read c
      | Enum_cls \<Rightarrow> Enum_read K
      | RawData_cls \<Rightarrow> RawData_read c
      | _ \<Rightarrow> (\<lambda>st. Inl NotImplementedError))"

text \<open>
  The registry calls back into \<open>read\<close> for every child, to any depth the stream asks for;
  \<open>depth\<close> bounds the number of nested calls of \<open>read\<close>, as the interpreter does.
\<close>

primrec read :: "constants \<Rightarrow> nat \<Rightarrow> cls \<Rightarrow> reader" where
  "read K 0 = (\<lambda>c st. Inl RecursionError)"
| "read K (Suc depth) =
     cls_read K (\<lambda>ostype. map_option (\<lambda>c. as_decoder (read K depth c)) (TYPES ostype))"

text \<open>\<open>write_bytes(fp, item.ostype.value)\<close>\<close>

definition write_ostype :: "constants \<Rightarrow> element option \<Rightarrow> writer" where
  "write_ostype K item out =
     (case item of
        None \<Rightarrow> Inl AttributeError
      | Some e \<Rightarrow>
          (case cls_ostype (class_of e) of
             None \<Rightarrow> Inl AttributeError
           | Some t \<Rightarrow> write_bytes (OSType_value K t) out))"

fun write_element :: "constants \<Rightarrow> element \<Rightarrow> writer"
  and write_dict_items :: "constants \<Rightarrow> (key \<times> element option) list \<Rightarrow> writer"
  and write_list_items :: "constants \<Rightarrow> element option list \<Rightarrow> writer"
where
  "write_element K (Descriptor_obj c name classID items) out =
     wthen (write_unicode_string name (Some 1))
       (wthen (write_length_and_key classID)
          (wthen (write_fmt_I (length items)) (\<lambda>o1. write_dict_items K items o1))) out"
| "write_element K (List_obj c items) out =
     wthen (write_fmt_I (length items)) (\<lambda>o1. write_list_items K items o1) out"
| "write_element K (Property_obj name classID keyID) out = Property_write name classID keyID out"
| "write_element K (UnitFloat_obj u x) out = UnitFloat_write u x out"
| "write_element K (UnitFloats_obj u xs) out = UnitFloats_write u xs out"
| "write_element K (Double_obj x) out = Double_write x out"
| "write_element K (Class_obj c name classID) out = Class_write name classID out"
| "write_element K (String_obj c s) out = String_write s out"
| "write_element K (EnumeratedReference_obj name classID typeID enum) out =
     EnumeratedReference_write name classID typeID enum out"
| "write_element K (Offset_obj name classID v) out = Offset_write name classID v out"
| "write_element K (Bool_obj b) out = Bool_write b out"
| "write_element K (LargeInteger_obj v) out = LargeInteger_write v out"
| "write_element K (Integer_obj c v) out = Integer_write v out"
| "write_element K (Enum_obj typeID enum) out = Enum_write typeID enum out"
| "write_element K (RawData_obj c b) out = RawData_write b out"
| "write_dict_items K [] out = Inr (0, out)"
| "write_dict_items K ((key, None) # rest) out =
     wthen (write_length_and_key key) (write_ostype K None) out"
| "write_dict_items K ((key, Some e) # rest) out =
     wthen (write_length_and_key key)
       (wthen (write_ostype K (Some e))
          (wthen (\<lambda>o1. write_element K e o1) (\<lambda>o2. write_dict_items K rest o2))) out"
| "write_list_items K [] out = Inr (0, out)"
| "write_list_items K (None # rest) out = write_ostype K None out"
| "write_list_items K (Some e # rest) out =
     wthen (write_ostype K (Some e))
       (wthen (\<lambda>o1. write_element K e o1) (\<lambda>o2. write_list_items K rest o2)) out"

section \<open>Well-formed constants and elements\<close>

text \<open>
  What is assumed of the three enumerations: every \<open>OSType\<close> member has a value of 4
  bytes and is the member that the enumeration gives back for that value (no two members
  share a value), and the values of \<open>DescriptorClassID\<close> and of \<open>UnitFloatType\<close> are
  4 bytes long.
\<close>

definition wf_constants :: "constants \<Rightarrow> bool" where
  "wf_constants K \<longleftrightarrow>
     list_all (\<lambda>t. length (OSType_value K t) = 4 \<and> OSType K (OSType_value K t) = Inr t)
       all_ostypes \<and>
     list_all (\<lambda>c. length c = 4) (DescriptorClassID_values K) \<and>
     list_all (\<lambda>u. length u = 4) (UnitFloatType_values K)"

text \<open>
  A key that can be read back: a member of \<open>DescriptorClassID\<close> is one of the
  enumeration, and a \<open>bytes\<close> key is not empty.
\<close>

fun wf_key :: "constants \<Rightarrow> key \<Rightarrow> bool" where
  "wf_key K (ClassID code) \<longleftrightarrow> code \<in> set (DescriptorClassID_values K)"
| "wf_key K (RawKey b) \<longleftrightarrow> b \<noteq> []"

text \<open>
  The elements that the classes can build: the class of an object is the class of its
  constructor or one of its subclasses, the keys of a descriptor are distinct (they are
  the keys of an \<open>OrderedDict\<close>), a unit is a member of \<open>UnitFloatType\<close>, and no
  value is \<open>None\<close>; together with the condition on keys above, and with the condition
  that no float is a NaN, without which an element is not equal to itself in the program.
\<close>

fun wf_element :: "constants \<Rightarrow> element \<Rightarrow> bool"
  and wf_dict_items :: "constants \<Rightarrow> (key \<times> element option) list \<Rightarrow> bool"
  and wf_list_items :: "constants \<Rightarrow> element option list \<Rightarrow> bool"
where
  "wf_element K (Descriptor_obj c name classID items) \<longleftrightarrow>
     defining_class c = Descriptor_cls \<and> wf_key K classID \<and>
     distinct (map fst items) \<and> wf_dict_items K items"
| "wf_element K (List_obj c items) \<longleftrightarrow>
     defining_class c = List_cls \<and> wf_list_items K items"
| "wf_element K (Property_obj name classID keyID) \<longleftrightarrow> wf_key K classID \<and> wf_key K keyID"
| "wf_element K (UnitFloat_obj u x) \<longleftrightarrow> u \<in> set (UnitFloatType_values K) \<and> \<not> is_nan x"
| "wf_element K (UnitFloats_obj u xs) \<longleftrightarrow>
     u \<in> set (UnitFloatType_values K) \<and> list_all (\<lambda>x. \<not> is_nan x) xs"
| "wf_element K (Double_obj x) \<longleftrightarrow> \<not> is_nan x"
| "wf_element K (Class_obj c name classID) \<longleftrightarrow>
     defining_class c = Class_cls \<and> wf_key K classID"
| "wf_element K (String_obj c s) \<longleftrightarrow> defining_class c = String_cls"
| "wf_element K (EnumeratedReference_obj name classID typeID enum) \<longleftrightarrow>
     wf_key K classID \<and> wf_key K typeID \<and> wf_key K enum"
| "wf_element K (Offset_obj name classID v) \<longleftrightarrow> wf_key K classID"
| "wf_element K (Bool_obj b) \<longleftrightarrow> True"
| "wf_element K (LargeInteger_obj v) \<longleftrightarrow> True"
| "wf_element K (Integer_obj c v) \<longleftrightarrow> defining_class c = Integer_cls"
| "wf_element K (Enum_obj typeID enum) \<longleftrightarrow> wf_key K typeID \<and> wf_key K enum"
| "wf_element K (RawData_obj c b) \<longleftrightarrow> defining_class c = RawData_cls"
| "wf_dict_items K [] \<longleftrightarrow> True"
| "wf_dict_items K ((key, None) # rest) \<longleftrightarrow> False"
| "wf_dict_items K ((key, Some e) # rest) \<longleftrightarrow>
     wf_key K key \<and> wf_element K e \<and> wf_dict_items K rest"
| "wf_list_items K [] \<longleftrightarrow> True"
| "wf_list_items K (None # rest) \<longleftrightarrow> False"
| "wf_list_items K (Some e # rest) \<longleftrightarrow> wf_element K e \<and> wf_list_items K rest"

text \<open>The number of nested calls of \<open>read\<close> that it takes to read an element back.\<close>

fun depth :: "element \<Rightarrow> nat"
  and depth_dict_items :: "(key \<times> element option) list \<Rightarrow> nat"
  and depth_list_items :: "element option list \<Rightarrow> nat"
where
  "depth (Descriptor_obj c name classID items) = Suc (depth_dict_items items)"
| "depth (List_obj c items) = Suc (depth_list_items items)"
| "depth (Property_obj name classID keyID) = Suc 0"
| "depth (UnitFloat_obj u x) = Suc 0"
| "depth (UnitFloats_obj u xs) = Suc 0"
| "depth (Double_obj x) = Suc 0"
| "depth (Class_obj c name classID) = Suc 0"
| "depth (String_obj c s) = Suc 0"
| "depth (EnumeratedReference_obj name classID typeID enum) = Suc 0"
| "depth (Offset_obj name classID v) = Suc 0"
| "depth (Bool_obj b) = Suc 0"
| "depth (LargeInteger_obj v) = Suc 0"
| "depth (Integer_obj c v) = Suc 0"
| "depth (Enum_obj typeID enum) = Suc 0"
| "depth (RawData_obj c b) = Suc 0"
| "depth_dict_items [] = 0"
| "depth_dict_items ((key, None) # rest) = depth_dict_items rest"
| "depth_dict_items ((key, Some e) # rest) = max (depth e) (depth_dict_items rest)"
| "depth_list_items [] = 0"
| "depth_list_items (None # rest) = depth_list_items rest"
| "depth_list_items (Some e # rest) = max (depth e) (depth_list_items rest)"

text \<open>
  A reader decodes the bytes \<open>bs\<close> to \<open>x\<close>: whatever follows them in the stream, it
  returns \<open>x\<close>, leaves the cursor after \<open>bs\<close> and reports nothing.
\<close>

definition decodes :: "(rstate \<Rightarrow> ('a \<times> rstate) result) \<Rightarrow> bytes \<Rightarrow> 'a \<Rightarrow> bool" where
  "decodes rd bs x \<longleftrightarrow>
     (\<forall>rest lg. rd \<lparr>unread = bs @ rest, warned = lg\<rparr> = Inr (x, \<lparr>unread = rest, warned = lg\<rparr>))"

text \<open>
  A writer appends: when it returns, the stream is the old stream followed by the bytes it
  wrote, and the number it returns is their count.
\<close>

definition appends :: "writer \<Rightarrow> bool" where
  "appends w \<longleftrightarrow>
     (\<forall>out n out'. w out = Inr (n, out') \<longrightarrow> (\<exists>bs. out' = out @ bs \<and> n = length bs))"

text \<open>
  A writer and a reader round-trip at \<open>x\<close>: whatever the writer appends when it
  succeeds, the reader decodes to \<open>x\<close>.
\<close>

definition roundtrips :: "writer \<Rightarrow> (rstate \<Rightarrow> ('a \<times> rstate) result) \<Rightarrow> 'a \<Rightarrow> bool" where
  "roundtrips w rd x \<longleftrightarrow>
     (\<forall>out n out'. w out = Inr (n, out') \<longrightarrow>
        (\<exists>bs. out' = out @ bs \<and> n = length bs \<and> decodes rd bs x))"

text \<open>\<open>TYPES.get\<close> followed by \<open>read\<close>, with at most \<open>d\<close> nested calls of \<open>read\<close>.\<close>

definition TYPES_get :: "constants \<Rightarrow> nat \<Rightarrow> ostype \<Rightarrow> decoder option" where
  "TYPES_get K d ostype = map_option (\<lambda>c. as_decoder (read K d c)) (TYPES ostype)"

section \<open>A sample of the constants\<close>

text \<open>
  An instance of the constants on which the definitions can be run: the type tags are
  those of the published file format, with a few class identifiers and units.
\<close>

fun sample_OSType_value :: "ostype \<Rightarrow> bytes" where
  "sample_OSType_value DESCRIPTOR = ''Objc''"
| "sample_OSType_value LIST = ''VlLs''"
| "sample_OSType_value PROPERTY = ''prop''"
| "sample_OSType_value UNIT_FLOAT = ''UntF''"
| "sample_OSType_value UNIT_FLOATS = ''UnFl''"
| "sample_OSType_value DOUBLE = ''doub''"
| "sample_OSType_value STRING = ''TEXT''"
| "sample_OSType_value ENUMERATED_REFERENCE = ''Enmr''"
| "sample_OSType_value OFFSET = ''rele''"
| "sample_OSType_value BOOLEAN = ''bool''"
| "sample_OSType_value LARGE_INTEGER = ''comp''"
| "sample_OSType_value INTEGER = ''long''"
| "sample_OSType_value ENUMERATED = ''enum''"
| "sample_OSType_value RAW_DATA = ''tdta''"
| "sample_OSType_value CLASS1 = ''type''"
| "sample_OSType_value CLASS2 = ''GlbC''"
| "sample_OSType_value CLASS3 = ''Clss''"
| "sample_OSType_value REFERENCE = ''obj ''"
| "sample_OSType_value ALIAS = ''alis''"
| "sample_OSType_value GLOBAL_OBJECT = ''GlbO''"
| "sample_OSType_value OBJECT_ARRAY = ''ObAr''"
| "sample_OSType_value PATH = ''Pth ''"
| "sample_OSType_value IDENTIFIER = ''Idnt''"
| "sample_OSType_value INDEX = ''indx''"
| "sample_OSType_value NAME = ''name''"

definition sample_constants :: constants where
  "sample_constants =
     \<lparr>OSType_value = sample_OSType_value,
      DescriptorClassID_values = [''null'', ''Lyr '', ''Objc''],
      UnitFloatType_values = [''#Ang'', ''#Nne'', ''#Prc'', ''#Pxl'']\<rparr>"

text \<open>
  A sample tree: a descriptor with the class identifier \<open>NULL\<close> and three entries, a
  string, a nested descriptor of the class \<open>GlobalObject\<close> and a list of the class
  \<open>Reference\<close> with an integer, a boolean and a string of the class \<open>Name\<close>; and the
  bytes it is written as.
\<close>

definition sample_element :: element where
  "sample_element =
     Descriptor_obj Descriptor_cls [] (ClassID ''null'')
       [(RawKey ''Nm  '', Some (String_obj String_cls [0x4C, 0x61, 0x79, 0x65, 0x72, 0x20, 0x31])),
        (ClassID ''Lyr '',
           Some (Descriptor_obj GlobalObject_cls [0x41] (RawKey ''sub'')
                   [(RawKey ''k'', Some (Bool_obj True))])),
        (RawKey ''list'',
           Some (List_obj Reference_cls
                   [Some (Integer_obj Integer_cls 5), Some (Bool_obj True),
                    Some (String_obj Name_cls [0x78])]))]"

definition sample_bytes :: bytes where
  "sample_bytes =
     [CHR 0x00, CHR 0x00, CHR 0x00, CHR 0x00] @
     [CHR 0x00, CHR 0x00, CHR 0x00, CHR 0x00] @ ''null'' @
     [CHR 0x00, CHR 0x00, CHR 0x00, CHR 0x03] @
     [CHR 0x00, CHR 0x00, CHR 0x00, CHR 0x04] @ ''Nm  '' @ ''TEXT'' @
     [CHR 0x00, CHR 0x00, CHR 0x00, CHR 0x07,
      CHR 0x00, CHR 0x4C, CHR 0x00, CHR 0x61, CHR 0x00, CHR 0x79, CHR 0x00, CHR 0x65,
      CHR 0x00, CHR 0x72, CHR 0x00, CHR 0x20, CHR 0x00, CHR 0x31, CHR 0x00, CHR 0x00] @
     [CHR 0x00, CHR 0x00, CHR 0x00, CHR 0x00] @ ''Lyr '' @ ''GlbO'' @
     [CHR 0x00, CHR 0x00, CHR 0x00, CHR 0x01, CHR 0x00, CHR 0x41, CHR 0x00, CHR 0x00] @
     [CHR 0x00, CHR 0x00, CHR 0x00, CHR 0x03] @ ''sub'' @
     [CHR 0x00, CHR 0x00, CHR 0x00, CHR 0x01] @
     [CHR 0x00, CHR 0x00, CHR 0x00, CHR 0x01] @ ''k'' @ ''bool'' @ [CHR 0x01] @
     [CHR 0x00, CHR 0x00, CHR 0x00, CHR 0x04] @ ''list'' @ ''obj '' @
     [CHR 0x00, CHR 0x00, CHR 0x00, CHR 0x03] @
     ''long'' @ [CHR 0x00, CHR 0x00, CHR 0x00, CHR 0x05] @
     ''bool'' @ [CHR 0x01] @
     ''name'' @ [CHR 0x00, CHR 0x00, CHR 0x00, CHR 0x01, CHR 0x00, CHR 0x78, CHR 0x00, CHR 0x00]"

definition repeated_key_bytes :: bytes where
  "repeated_key_bytes =
     [CHR 0x00, CHR 0x00, CHR 0x00, CHR 0x00] @
     [CHR 0x00, CHR 0x00, CHR 0x00, CHR 0x00] @ ''null'' @
     [CHR 0x00, CHR 0x00, CHR 0x00, CHR 0x02] @
     [CHR 0x00, CHR 0x00, CHR 0x00, CHR 0x04] @ ''Nm  '' @ ''bool'' @ [CHR 0x01] @
     [CHR 0x00, CHR 0x00, CHR 0x00, CHR 0x04] @ ''Nm  '' @ ''long'' @
     [CHR 0x00, CHR 0x00, CHR 0x00, CHR 0x07]"

text \<open>
  A tag is registered when it is the value of a member of \<open>OSType\<close> for which
  \<open>TYPES.get\<close> finds a class.
\<close>

definition is_registered :: "constants \<Rightarrow> (ostype \<Rightarrow> decoder option) \<Rightarrow> bytes \<Rightarrow> bool" where
  "is_registered K T tag \<longleftrightarrow> (case OSType K tag of Inl e \<Rightarrow> False | Inr t \<Rightarrow> T t \<noteq> None)"

definition unknown_tag_descriptor_bytes :: bytes where
  "unknown_tag_descriptor_bytes =
     [CHR 0x00, CHR 0x00, CHR 0x00, CHR 0x00] @
     [CHR 0x00, CHR 0x00, CHR 0x00, CHR 0x00] @ ''null'' @
     [CHR 0x00, CHR 0x00, CHR 0x00, CHR 0x02] @
     [CHR 0x00, CHR 0x00, CHR 0x00, CHR 0x04] @ ''Nm  '' @ ''bool'' @ [CHR 0x01] @
     [CHR 0x00, CHR 0x00, CHR 0x00, CHR 0x04] @ ''Opct'' @ ''XXXX'' @
     [CHR 0x00, CHR 0x00, CHR 0x00, CHR 0x07]"

definition unknown_tag_list_bytes :: bytes where
  "unknown_tag_list_bytes =
     [CHR 0x00, CHR 0x00, CHR 0x00, CHR 0x02] @
     ''bool'' @ [CHR 0x01] @
     ''XXXX'' @ [CHR 0x00, CHR 0x00, CHR 0x00, CHR 0x07]"

text \<open>
  The registry after \<open>register(OSType.STRING)\<close> has been applied to one more class, whose
  \<open>read\<close> consumes nothing and returns \<open>None\<close>; and a stream with one entry of that tag.
\<close>

definition none_decoder_registry :: "ostype \<Rightarrow> decoder option" where
  "none_decoder_registry = (TYPES_get sample_constants 1)(STRING := Some (\<lambda>st. Inr (None, st)))"

definition none_value_bytes :: bytes where
  "none_value_bytes =
     [CHR 0x00, CHR 0x00, CHR 0x00, CHR 0x00] @
     [CHR 0x00, CHR 0x00, CHR 0x00, CHR 0x00] @ ''null'' @
     [CHR 0x00, CHR 0x00, CHR 0x00, CHR 0x01] @
     [CHR 0x00, CHR 0x00, CHR 0x00, CHR 0x04] @ ''Nm  '' @ ''TEXT''"



section \<open>Lemmas on the primitive layer\<close>

subsection \<open>The result monad and the writers\<close>

lemma rbind_Inr [simp]: "rbind (Inr x) f = f x"
  by (simp add: rbind_def)

lemma rbind_Inl [simp]: "rbind (Inl e) f = Inl e"
  by (simp add: rbind_def)

lemma rbind_eq_Inr: "rbind r f = Inr y \<longleftrightarrow> (\<exists>x. r = Inr x \<and> f x = Inr y)"
  by (cases r) simp_all

lemma wthen_eq_Inr:
  "wthen w1 w2 out = Inr (n, out') \<longleftrightarrow>
     (\<exists>n1 out1 n2. w1 out = Inr (n1, out1) \<and> w2 out1 = Inr (n2, out') \<and> n = n1 + n2)"
  by (auto simp: wthen_def rbind_eq_Inr)

lemma write_bytes_eq_Inr:
  "write_bytes data out = Inr (n, out') \<longleftrightarrow> n = length data \<and> out' = out @ data"
  by (auto simp: write_bytes_def)

lemma length_nat_be [simp]: "length (nat_be w n) = w"
  by (induction w arbitrary: n) simp_all

lemma be_nat_snoc: "be_nat (bs @ [c]) = be_nat bs * 256 + of_char c"
  by (simp add: be_nat_def)

lemma be_nat_nat_be: "n < 256 ^ w \<Longrightarrow> be_nat (nat_be w n) = n"
proof (induction w arbitrary: n)
  case 0
  then show ?case by (simp add: be_nat_def)
next
  case (Suc w)
  from Suc.prems have "n div 256 < 256 ^ w"
    by (simp add: less_mult_imp_div_less mult.commute)
  then have "be_nat (nat_be w (n div 256)) = n div 256"
    by (rule Suc.IH)
  then show ?case
    by (simp add: be_nat_snoc del: char_of_mod_256)
qed

lemma write_fmt_I_eq_Inr:
  "write_fmt_I n out = Inr (m, out') \<longleftrightarrow> n < 2 ^ 32 \<and> m = 4 \<and> out' = out @ nat_be 4 n"
  by (auto simp: write_fmt_I_def write_bytes_def)

lemma read_exact_append:
  "length bs = n \<Longrightarrow>
   read_exact n \<lparr>unread = bs @ rest, warned = lg\<rparr> = Inr (bs, \<lparr>unread = rest, warned = lg\<rparr>)"
  by (simp add: read_exact_def fp_read_def)

lemma fp_read_append:
  "length bs = n \<Longrightarrow>
   fp_read n \<lparr>unread = bs @ rest, warned = lg\<rparr> = (bs, \<lparr>unread = rest, warned = lg\<rparr>)"
  by (simp add: fp_read_def)

lemma decodes_read_fmt_I: "n < 2 ^ 32 \<Longrightarrow> decodes read_fmt_I (nat_be 4 n) n"
  by (simp add: decodes_def read_fmt_I_def read_exact_append be_nat_nat_be)

subsection \<open>Keys\<close>

lemma wthen_write_bytes:
  "w out = Inr (n, out @ bs) \<Longrightarrow> wthen w (write_bytes data) out = Inr (n + length data, out @ bs @ data)"
  by (simp add: wthen_def write_bytes_def)

lemma write_length_and_key_ClassID:
  "write_length_and_key (ClassID code) out =
     Inr (4 + length code, out @ nat_be 4 0 @ code)"
  by (simp add: write_length_and_key_def wthen_def write_fmt_I_def write_bytes_def)

lemma write_length_and_key_RawKey:
  "length b < 2 ^ 32 \<Longrightarrow>
   write_length_and_key (RawKey b) out = Inr (4 + length b, out @ nat_be 4 (length b) @ b)"
  by (simp add: write_length_and_key_def wthen_def write_fmt_I_def write_bytes_def)

lemma write_length_and_key_RawKey_too_long:
  "\<not> length b < 2 ^ 32 \<Longrightarrow>
   write_length_and_key (RawKey b) out = Inl UnrepresentableValueError"
  by (simp add: write_length_and_key_def wthen_def write_fmt_I_def write_bytes_def)

lemma read_fmt_I_append:
  "n < 2 ^ 32 \<Longrightarrow>
   read_fmt_I \<lparr>unread = nat_be 4 n @ rest, warned = lg\<rparr> = Inr (n, \<lparr>unread = rest, warned = lg\<rparr>)"
  using decodes_read_fmt_I [of n] by (simp add: decodes_def)

lemma read_length_and_key_zero:
  "read_length_and_key K \<lparr>unread = nat_be 4 0 @ code @ rest, warned = lg\<rparr> =
     (if length code = 4 then
        (if code \<in> set (DescriptorClassID_values K)
         then Inr (ClassID code, \<lparr>unread = rest, warned = lg\<rparr>)
         else Inr (RawKey code, \<lparr>unread = rest, warned = lg @ [code]\<rparr>))
      else read_length_and_key K \<lparr>unread = nat_be 4 0 @ code @ rest, warned = lg\<rparr>)"
  by (simp add: read_length_and_key_def read_fmt_I_append fp_read_def DescriptorClassID_def)

lemma read_length_and_key_nonzero:
  "0 < n \<Longrightarrow> n < 2 ^ 32 \<Longrightarrow>
   read_length_and_key K \<lparr>unread = nat_be 4 n @ bs, warned = lg\<rparr> =
     Inr (RawKey (take n bs), \<lparr>unread = drop n bs, warned = lg\<rparr>)"
  by (simp add: read_length_and_key_def read_fmt_I_append fp_read_def)

lemma key_roundtrip:
  assumes "list_all (\<lambda>c. length c = 4) (DescriptorClassID_values K)"
    and "wf_key K k"
    and "write_length_and_key k out = Inr (n, out')"
  shows "\<exists>bs. out' = out @ bs \<and> n = length bs \<and> decodes (read_length_and_key K) bs k"
proof (cases k)
  case (ClassID code)
  with assms have len: "length code = 4"
    by (auto simp: list_all_iff)
  from ClassID assms(3) have "out' = out @ nat_be 4 0 @ code" "n = length (nat_be 4 0 @ code)"
    by (simp_all add: write_length_and_key_ClassID)
  moreover have "decodes (read_length_and_key K) (nat_be 4 0 @ code) k"
    unfolding decodes_def using ClassID assms(2) len
    by (simp add: read_length_and_key_zero del: nat_be.simps)
  ultimately show ?thesis by blast
next
  case (RawKey b)
  with assms(2) have ne: "0 < length b" by simp
  from RawKey assms(3) have small: "length b < 2 ^ 32"
    using write_length_and_key_RawKey_too_long [of b out] by (cases "length b < 2 ^ 32") auto
  with RawKey assms(3) have "out' = out @ nat_be 4 (length b) @ b"
    "n = length (nat_be 4 (length b) @ b)"
    by (simp_all add: write_length_and_key_RawKey)
  moreover have "decodes (read_length_and_key K) (nat_be 4 (length b) @ b) k"
    unfolding decodes_def using RawKey ne small
    by (simp add: read_length_and_key_nonzero del: nat_be.simps)
  ultimately show ?thesis by blast
qed

subsection \<open>Strings and numbers\<close>

lemma nat_be_2: "nat_be 2 n = [char_of (n div 256), char_of n]"
  by (simp add: numeral_2_eq_2)

lemma unat_16_bound: "unat (u :: 16 word) < 256 ^ 2"
  using unsigned_less [of u, where ?'a = nat] by simp

lemma unat_64_bound: "unat (x :: 64 word) < 256 ^ 8"
  using unsigned_less [of x, where ?'a = nat] by simp

lemma utf16_be_decode_step:
  "utf16_be_decode (nat_be 2 (unat u) @ rest) = u # utf16_be_decode rest"
proof -
  have "be_nat (nat_be 2 (unat u)) = unat u"
    by (rule be_nat_nat_be) (rule unat_16_bound)
  then show ?thesis
    by (simp add: nat_be_2)
qed

lemma utf16_be_decode_encode [simp]: "utf16_be_decode (utf16_be_encode s) = s"
proof (induction s)
  case Nil
  then show ?case by (simp add: utf16_be_encode_def)
next
  case (Cons u s)
  then show ?case
    using utf16_be_decode_step [of u "utf16_be_encode s"]
    by (simp add: utf16_be_encode_def del: nat_be.simps)
qed

lemma length_utf16_be_encode [simp]: "length (utf16_be_encode s) = 2 * length s"
  by (induction s) (simp_all add: utf16_be_encode_def)

lemma write_unicode_string_eq_Inr:
  "write_unicode_string s p out = Inr (n, out') \<longleftrightarrow>
     length s < 2 ^ 32 \<and>
     out' = out @ nat_be 4 (length s) @ utf16_be_encode s
              @ replicate (padding_size p (4 + 2 * length s)) (CHR 0x00) \<and>
     n = 4 + 2 * length s + padding_size p (4 + 2 * length s)"
  by (auto simp: write_unicode_string_def wthen_def write_fmt_I_def write_bytes_def)

lemma decodes_read_unicode_string:
  "length s < 2 ^ 32 \<Longrightarrow>
   decodes (read_unicode_string p)
     (nat_be 4 (length s) @ utf16_be_encode s
        @ replicate (padding_size p (4 + 2 * length s)) (CHR 0x00)) s"
  by (simp add: decodes_def read_unicode_string_def read_fmt_I_append read_exact_append
      del: nat_be.simps)

lemma unicode_string_roundtrip:
  assumes "write_unicode_string s p out = Inr (n, out')"
  shows "\<exists>bs. out' = out @ bs \<and> n = length bs \<and> decodes (read_unicode_string p) bs s"
  using assms decodes_read_unicode_string [of s p]
  by (auto simp: write_unicode_string_eq_Inr)

lemma unpack_d_pack_d [simp]: "unpack_d (pack_d x) = x"
proof -
  have "be_nat (nat_be 8 (unat x)) = unat x"
    by (rule be_nat_nat_be) (rule unat_64_bound)
  then show ?thesis
    by (simp add: unpack_d_def pack_d_def del: nat_be.simps)
qed

lemma length_pack_d [simp]: "length (pack_d x) = 8"
  by (simp add: pack_d_def)

lemma length_8_cases:
  assumes "length bs = 8"
  obtains a b c d e f g h where "bs = [a, b, c, d, e, f, g, h]"
proof -
  have "(8::nat) = Suc (Suc (Suc (Suc (Suc (Suc (Suc (Suc 0)))))))" by simp
  with assms have "length bs = Suc (Suc (Suc (Suc (Suc (Suc (Suc (Suc 0)))))))" by simp
  then show ?thesis
    using that by (auto simp: length_Suc_conv)
qed

lemma unpack_doubles_step:
  assumes "length bs = 8"
  shows "unpack_doubles (bs @ rest) = unpack_d bs # unpack_doubles rest"
  using assms by (elim length_8_cases) simp

lemma unpack_doubles_pack [simp]: "unpack_doubles (concat (map pack_d xs)) = xs"
  by (induction xs) (simp_all add: unpack_doubles_step)

lemma length_concat_pack_d [simp]: "length (concat (map pack_d xs)) = 8 * length xs"
  by (induction xs) simp_all

lemma to_signed_4:
  assumes "- (2 ^ 31) \<le> v" "v < 2 ^ 31"
  shows "to_signed 4 (be_nat (nat_be 4 (nat (v mod 2 ^ 32)))) = v"
proof -
  have "nat (v mod 2 ^ 32) < 256 ^ 4"
    by (simp add: nat_less_iff)
  then have eq: "be_nat (nat_be 4 (nat (v mod 2 ^ 32))) = nat (v mod 2 ^ 32)"
    by (rule be_nat_nat_be)
  show ?thesis
  proof (cases "0 \<le> v")
    case True
    with assms have "v mod 2 ^ 32 = v" by simp
    with True assms show ?thesis
      unfolding eq by (simp add: to_signed_def)
  next
    case False
    with assms have "(v + 2 ^ 32) mod 2 ^ 32 = v + 2 ^ 32"
      by (intro mod_pos_pos_trivial) simp_all
    then have "v mod 2 ^ 32 = v + 2 ^ 32"
      by simp
    with False assms show ?thesis
      unfolding eq by (simp add: to_signed_def)
  qed
qed

lemma to_signed_8:
  assumes "- (2 ^ 63) \<le> v" "v < 2 ^ 63"
  shows "to_signed 8 (be_nat (nat_be 8 (nat (v mod 2 ^ 64)))) = v"
proof -
  have "nat (v mod 2 ^ 64) < 256 ^ 8"
    by (simp add: nat_less_iff)
  then have eq: "be_nat (nat_be 8 (nat (v mod 2 ^ 64))) = nat (v mod 2 ^ 64)"
    by (rule be_nat_nat_be)
  show ?thesis
  proof (cases "0 \<le> v")
    case True
    with assms have "v mod 2 ^ 64 = v" by simp
    with True assms show ?thesis
      unfolding eq by (simp add: to_signed_def)
  next
    case False
    with assms have "(v + 2 ^ 64) mod 2 ^ 64 = v + 2 ^ 64"
      by (intro mod_pos_pos_trivial) simp_all
    then have "v mod 2 ^ 64 = v + 2 ^ 64"
      by simp
    with False assms show ?thesis
      unfolding eq by (simp add: to_signed_def)
  qed
qed

subsection \<open>Round trips of the primitives\<close>

lemma roundtripsI:
  assumes "\<And>out n out'. w out = Inr (n, out') \<Longrightarrow>
             \<exists>bs. out' = out @ bs \<and> n = length bs \<and> decodes rd bs x"
  shows "roundtrips w rd x"
  using assms by (simp add: roundtrips_def)

lemma roundtripsD:
  assumes "roundtrips w rd x" "w out = Inr (n, out')"
  obtains bs where "out' = out @ bs" "n = length bs" "decodes rd bs x"
  using assms unfolding roundtrips_def by blast

lemma rbind_assoc: "rbind (rbind r f) g = rbind r (\<lambda>x. rbind (f x) g)"
  by (cases r) simp_all

lemma roundtrips_wthen:
  assumes "roundtrips w1 r1 x" "roundtrips w2 r2 y"
  shows "roundtrips (wthen w1 w2)
           (\<lambda>st. rbind (r1 st) (\<lambda>(a, st1). rbind (r2 st1) (\<lambda>(b, st2). Inr ((a, b), st2))))
           (x, y)"
proof (rule roundtripsI)
  fix out n out'
  assume "wthen w1 w2 out = Inr (n, out')"
  then obtain n1 o1 n2 where
    w1: "w1 out = Inr (n1, o1)" and w2: "w2 o1 = Inr (n2, out')" and n: "n = n1 + n2"
    unfolding wthen_eq_Inr by blast
  from assms(1) w1 obtain b1 where b1: "o1 = out @ b1" "n1 = length b1" "decodes r1 b1 x"
    by (rule roundtripsD)
  from assms(2) w2 obtain b2 where b2: "out' = o1 @ b2" "n2 = length b2" "decodes r2 b2 y"
    by (rule roundtripsD)
  have "decodes (\<lambda>st. rbind (r1 st) (\<lambda>(a, st1). rbind (r2 st1) (\<lambda>(b, st2). Inr ((a, b), st2))))
          (b1 @ b2) (x, y)"
    using b1(3) b2(3) by (simp add: decodes_def)
  with b1 b2 n show "\<exists>bs. out' = out @ bs \<and> n = length bs \<and>
      decodes (\<lambda>st. rbind (r1 st) (\<lambda>(a, st1). rbind (r2 st1) (\<lambda>(b, st2). Inr ((a, b), st2)))) bs (x, y)"
    by (intro exI [of _ "b1 @ b2"]) simp
qed

lemma roundtrips_map:
  assumes "roundtrips w r x"
    and "\<And>st. r' st = rbind (r st) (\<lambda>(a, st1). Inr (f a, st1))"
  shows "roundtrips w r' (f x)"
proof (rule roundtripsI)
  fix out n out'
  assume "w out = Inr (n, out')"
  with assms(1) obtain bs where bs: "out' = out @ bs" "n = length bs" "decodes r bs x"
    by (rule roundtripsD)
  from bs(3) have "decodes r' bs (f x)"
    by (simp add: decodes_def assms(2))
  with bs show "\<exists>bs. out' = out @ bs \<and> n = length bs \<and> decodes r' bs (f x)"
    by blast
qed

lemma roundtrips_key:
  assumes "list_all (\<lambda>c. length c = 4) (DescriptorClassID_values K)" "wf_key K k"
  shows "roundtrips (write_length_and_key k) (read_length_and_key K) k"
  using assms by (intro roundtripsI key_roundtrip)

lemma roundtrips_unicode_string:
  "roundtrips (write_unicode_string s p) (read_unicode_string p) s"
  by (intro roundtripsI unicode_string_roundtrip)

lemma roundtrips_Property:
  assumes K: "list_all (\<lambda>c. length c = 4) (DescriptorClassID_values K)"
    and wf: "wf_key K classID" "wf_key K keyID"
  shows "roundtrips (Property_write name classID keyID) (Property_read K)
           (Property_obj name classID keyID)"
proof -
  note parts = roundtrips_wthen [OF roundtrips_unicode_string
      roundtrips_wthen [OF roundtrips_key [OF K wf(1)] roundtrips_key [OF K wf(2)]]]
  have "roundtrips (Property_write name classID keyID) (Property_read K)
          ((\<lambda>(a, b, c). Property_obj a b c) (name, classID, keyID))"
    unfolding Property_write_def
    by (rule roundtrips_map [OF parts]) (simp add: Property_read_def rbind_assoc split_def)
  then show ?thesis by simp
qed

lemma roundtrips_direct:
  assumes "\<And>out n out'. w out = Inr (n, out') \<Longrightarrow> out' = out @ bs \<and> n = length bs \<and> P"
    and "P \<Longrightarrow> decodes rd bs x"
  shows "roundtrips w rd x"
  using assms by (intro roundtripsI) blast

lemma roundtrips_fmt_I: "roundtrips (write_fmt_I n) read_fmt_I n"
  by (rule roundtrips_direct [where bs = "nat_be 4 n" and P = "n < 2 ^ 32"])
    (auto simp: write_fmt_I_eq_Inr decodes_read_fmt_I)

lemma roundtrips_fmt_i: "roundtrips (write_fmt_i v) read_fmt_i v"
  by (rule roundtrips_direct [where bs = "nat_be 4 (nat (v mod 2 ^ 32))"
        and P = "- (2 ^ 31) \<le> v \<and> v < 2 ^ 31"])
    (use to_signed_4 [of v] in \<open>auto simp: write_fmt_i_def write_signed_def write_bytes_def
       decodes_def read_fmt_i_def read_exact_append split: if_splits simp del: nat_be.simps\<close>)

lemma roundtrips_fmt_q: "roundtrips (write_fmt_q v) read_fmt_q v"
  by (rule roundtrips_direct [where bs = "nat_be 8 (nat (v mod 2 ^ 64))"
        and P = "- (2 ^ 63) \<le> v \<and> v < 2 ^ 63"])
    (use to_signed_8 [of v] in \<open>auto simp: write_fmt_q_def write_signed_def write_bytes_def
       decodes_def read_fmt_q_def read_exact_append split: if_splits simp del: nat_be.simps\<close>)

lemma roundtrips_fmt_d: "roundtrips (write_fmt_d x) read_fmt_d x"
  by (rule roundtrips_direct [where bs = "pack_d x" and P = True])
    (auto simp: write_fmt_d_def write_bytes_def decodes_def read_fmt_d_def read_exact_append)

lemma roundtrips_fmt_bool: "roundtrips (write_fmt_bool b) read_fmt_bool b"
  by (rule roundtrips_direct [where bs = "nat_be 1 (if b then 1 else 0)" and P = True])
    (auto simp: write_fmt_bool_def write_bytes_def decodes_def read_fmt_bool_def
       read_exact_def fp_read_def be_nat_def)

lemma roundtrips_offset:
  "roundtrips (\<lambda>out. if v < 0 then Inl UnrepresentableValueError else write_fmt_I (nat v) out)
     (\<lambda>st. rbind (read_fmt_I st) (\<lambda>(a, st1). Inr (int a, st1))) v"
  by (rule roundtrips_direct [where bs = "nat_be 4 (nat v)" and P = "0 \<le> v \<and> nat v < 2 ^ 32"])
    (auto simp: write_fmt_I_eq_Inr decodes_def read_fmt_I_append split: if_splits
       simp del: nat_be.simps)

lemma pack_4s_id: "length u = 4 \<Longrightarrow> pack_4s u = u"
  by (simp add: pack_4s_def)

lemma roundtrips_UnitFloat:
  assumes "list_all (\<lambda>u. length u = 4) (UnitFloatType_values K)"
    and "u \<in> set (UnitFloatType_values K)"
  shows "roundtrips (UnitFloat_write u x) (UnitFloat_read K) (UnitFloat_obj u x)"
proof -
  from assms have len: "length u = 4" by (simp add: list_all_iff)
  have "\<And>rest lg. read_exact 12 \<lparr>unread = (u @ pack_d x) @ rest, warned = lg\<rparr>
      = Inr (u @ pack_d x, \<lparr>unread = rest, warned = lg\<rparr>)"
    using len by (intro read_exact_append) simp
  then have rd: "decodes (UnitFloat_read K) (u @ pack_d x) (UnitFloat_obj u x)"
    using len assms(2)
    by (simp add: decodes_def UnitFloat_read_def read_fmt_4sd_def UnitFloat_init_def
        UnitFloatType_def)
  show ?thesis
    by (rule roundtrips_direct [where bs = "u @ pack_d x" and P = True])
      (use len rd in \<open>auto simp: UnitFloat_write_def write_fmt_4sd_def write_bytes_def
         pack_4s_id\<close>)
qed

lemma roundtrips_UnitFloats:
  assumes "list_all (\<lambda>u. length u = 4) (UnitFloatType_values K)"
    and "u \<in> set (UnitFloatType_values K)"
  shows "roundtrips (UnitFloats_write u xs) (UnitFloats_read K) (UnitFloats_obj u xs)"
proof -
  from assms have len: "length u = 4" by (simp add: list_all_iff)
  have rd: "decodes (UnitFloats_read K) (u @ nat_be 4 (length xs) @ concat (map pack_d xs))
              (UnitFloats_obj u xs)" if small: "length xs < 2 ^ 32"
  proof -
    have "be_nat (nat_be 4 (length xs)) = length xs"
      using small by (intro be_nat_nat_be) simp
    moreover have "\<And>rest lg. read_exact 8 \<lparr>unread = (u @ nat_be 4 (length xs)) @ rest, warned = lg\<rparr>
        = Inr (u @ nat_be 4 (length xs), \<lparr>unread = rest, warned = lg\<rparr>)"
      using len by (intro read_exact_append) simp
    ultimately show ?thesis
      using len assms(2)
      by (simp add: decodes_def UnitFloats_read_def read_fmt_4sI_def read_fmt_doubles_def
          read_exact_append UnitFloats_init_def UnitFloatType_def del: nat_be.simps)
  qed
  show ?thesis
    by (rule roundtrips_direct [where bs = "u @ nat_be 4 (length xs) @ concat (map pack_d xs)"
          and P = "length xs < 2 ^ 32"])
      (use len rd in \<open>auto simp: UnitFloats_write_def write_fmt_4sI_doubles_def write_bytes_def
         pack_4s_id split: if_splits simp del: nat_be.simps\<close>)
qed

lemma roundtrips_length_block:
  "roundtrips (write_length_block (write_bytes b)) read_length_block b"
  by (rule roundtrips_direct [where bs = "nat_be 4 (length b) @ b" and P = "length b < 2 ^ 32"])
    (auto simp: write_length_block_def write_bytes_def wthen_def write_fmt_I_def decodes_def
       read_length_block_def read_fmt_I_append read_exact_append split: if_splits
       simp del: nat_be.simps)

subsection \<open>Evaluation on numerals\<close>

lemma nat_be_numeral:
  "nat_be (numeral k) n = nat_be (pred_numeral k) (n div 256) @ [char_of (n mod 256)]"
  by (simp only: numeral_eq_Suc [of k] nat_be.simps)

lemma for_range_numeral:
  "for_range (numeral k) body items st =
     rbind (body st) (\<lambda>(x, st1). for_range (pred_numeral k) body (items @ [x]) st1)"
  by (simp only: numeral_eq_Suc [of k] for_range.simps)

lemma replicate_numeral:
  "replicate (numeral k) x = x # replicate (pred_numeral k) x"
  by (simp only: numeral_eq_Suc [of k] replicate.simps)

lemma read_numeral:
  "read K (numeral k) =
     cls_read K (\<lambda>ostype. map_option (\<lambda>c. as_decoder (read K (pred_numeral k) c)) (TYPES ostype))"
  by (simp only: numeral_eq_Suc [of k] read.simps)

lemma char_of_eval:
  "char_of (n::nat) = Char (odd n) (odd (n div 2)) (odd (n div 4)) (odd (n div 8))
     (odd (n div 16)) (odd (n div 32)) (odd (n div 64)) (odd (n div 128))"
  by (simp add: char_of_def bit_iff_odd)

lemma nat_be_4_0: "nat_be 4 0 = [CHR 0x00, CHR 0x00, CHR 0x00, CHR 0x00]"
  by (simp add: nat_be_numeral char_of_eval)

lemmas eval_simps = nat_be_numeral for_range_numeral replicate_numeral read_numeral char_of_eval

section \<open>Round trips of the classes\<close>

subsection \<open>Round trips of the classes without children\<close>

lemma roundtrips_Class:
  assumes K: "list_all (\<lambda>c. length c = 4) (DescriptorClassID_values K)"
    and wf: "wf_key K classID"
  shows "roundtrips (Class_write name classID) (Class_read K c) (Class_obj c name classID)"
proof -
  note parts = roundtrips_wthen [OF roundtrips_unicode_string roundtrips_key [OF K wf]]
  have "roundtrips (Class_write name classID) (Class_read K c)
          ((\<lambda>(a, b). Class_obj c a b) (name, classID))"
    unfolding Class_write_def
    by (rule roundtrips_map [OF parts]) (simp add: Class_read_def rbind_assoc split_def)
  then show ?thesis by simp
qed

lemma roundtrips_String: "roundtrips (String_write s) (String_read c) (String_obj c s)"
  unfolding String_write_def
  by (rule roundtrips_map [OF roundtrips_unicode_string]) (simp add: String_read_def)

lemma roundtrips_EnumeratedReference:
  assumes K: "list_all (\<lambda>c. length c = 4) (DescriptorClassID_values K)"
    and wf: "wf_key K classID" "wf_key K typeID" "wf_key K enum"
  shows "roundtrips (EnumeratedReference_write name classID typeID enum)
           (EnumeratedReference_read K) (EnumeratedReference_obj name classID typeID enum)"
proof -
  note parts = roundtrips_wthen [OF roundtrips_unicode_string
      roundtrips_wthen [OF roundtrips_key [OF K wf(1)]
        roundtrips_wthen [OF roundtrips_key [OF K wf(2)] roundtrips_key [OF K wf(3)]]]]
  have "roundtrips (EnumeratedReference_write name classID typeID enum)
          (EnumeratedReference_read K)
          ((\<lambda>(a, b, c, d). EnumeratedReference_obj a b c d) (name, classID, typeID, enum))"
    unfolding EnumeratedReference_write_def
    by (rule roundtrips_map [OF parts])
      (simp add: EnumeratedReference_read_def rbind_assoc split_def)
  then show ?thesis by simp
qed

lemma roundtrips_Offset:
  assumes K: "list_all (\<lambda>c. length c = 4) (DescriptorClassID_values K)"
    and wf: "wf_key K classID"
  shows "roundtrips (Offset_write name classID v) (Offset_read K) (Offset_obj name classID v)"
proof -
  note parts = roundtrips_wthen [OF roundtrips_unicode_string
      roundtrips_wthen [OF roundtrips_key [OF K wf] roundtrips_offset]]
  have "roundtrips (Offset_write name classID v) (Offset_read K)
          ((\<lambda>(a, b, c). Offset_obj a b c) (name, classID, v))"
    unfolding Offset_write_def
    by (rule roundtrips_map [OF parts]) (simp add: Offset_read_def rbind_assoc split_def)
  then show ?thesis by simp
qed

lemma roundtrips_Enum:
  assumes K: "list_all (\<lambda>c. length c = 4) (DescriptorClassID_values K)"
    and wf: "wf_key K typeID" "wf_key K enum"
  shows "roundtrips (Enum_write typeID enum) (Enum_read K) (Enum_obj typeID enum)"
proof -
  note parts = roundtrips_wthen [OF roundtrips_key [OF K wf(1)] roundtrips_key [OF K wf(2)]]
  have "roundtrips (Enum_write typeID enum) (Enum_read K)
          ((\<lambda>(a, b). Enum_obj a b) (typeID, enum))"
    unfolding Enum_write_def
    by (rule roundtrips_map [OF parts]) (simp add: Enum_read_def rbind_assoc split_def)
  then show ?thesis by simp
qed

lemma roundtrips_Double: "roundtrips (Double_write x) Double_read (Double_obj x)"
  unfolding Double_write_def
  by (rule roundtrips_map [OF roundtrips_fmt_d]) (simp add: Double_read_def)

lemma roundtrips_Bool: "roundtrips (Bool_write b) Bool_read (Bool_obj b)"
  unfolding Bool_write_def
  by (rule roundtrips_map [OF roundtrips_fmt_bool]) (simp add: Bool_read_def)

lemma roundtrips_LargeInteger:
  "roundtrips (LargeInteger_write v) LargeInteger_read (LargeInteger_obj v)"
  unfolding LargeInteger_write_def
  by (rule roundtrips_map [OF roundtrips_fmt_q]) (simp add: LargeInteger_read_def)

lemma roundtrips_Integer: "roundtrips (Integer_write v) (Integer_read c) (Integer_obj c v)"
  unfolding Integer_write_def
  by (rule roundtrips_map [OF roundtrips_fmt_i]) (simp add: Integer_read_def)

lemma roundtrips_RawData: "roundtrips (RawData_write b) (RawData_read c) (RawData_obj c b)"
  unfolding RawData_write_def
  by (rule roundtrips_map [OF roundtrips_length_block]) (simp add: RawData_read_def)

subsection \<open>The registry and the ordered dictionary\<close>

lemma read_Suc: "read K (Suc d) c = cls_read K (TYPES_get K d) c"
  by (simp add: TYPES_get_def [abs_def])

lemma TYPES_cls_ostype: "cls_ostype c = Some t \<Longrightarrow> TYPES t = Some c"
  by (cases c) auto

lemma set_all_ostypes: "t \<in> set all_ostypes"
  by (cases t) (simp_all add: all_ostypes_def)

lemma wf_constants_OSType:
  assumes "wf_constants K"
  shows "length (OSType_value K t) = 4" and "OSType K (OSType_value K t) = Inr t"
  using assms set_all_ostypes [of t] by (auto simp: wf_constants_def list_all_iff)

lemma wf_constants_ClassID:
  "wf_constants K \<Longrightarrow> list_all (\<lambda>c. length c = 4) (DescriptorClassID_values K)"
  by (simp add: wf_constants_def)

lemma wf_constants_UnitFloatType:
  "wf_constants K \<Longrightarrow> list_all (\<lambda>u. length u = 4) (UnitFloatType_values K)"
  by (simp add: wf_constants_def)

lemma update_fresh: "k \<notin> fst ` set d \<Longrightarrow> AList.update k v d = d @ [(k, v)]"
  by (induction d) auto

lemma foldl_update_distinct:
  "distinct (map fst (d @ pairs)) \<Longrightarrow>
   foldl (\<lambda>d (k, v). AList.update k v d) d pairs = d @ pairs"
proof (induction pairs arbitrary: d)
  case Nil
  then show ?case by simp
next
  case (Cons p pairs)
  obtain k v where p: "p = (k, v)" by (cases p)
  from Cons.prems p have fresh: "k \<notin> fst ` set d" by auto
  from Cons.prems p have "distinct (map fst ((d @ [(k, v)]) @ pairs))" by simp
  then have "foldl (\<lambda>d (k, v). AList.update k v d) (d @ [(k, v)]) pairs = (d @ [(k, v)]) @ pairs"
    by (rule Cons.IH)
  with fresh p show ?case by (simp add: update_fresh)
qed

lemma OrderedDict_distinct: "distinct (map fst pairs) \<Longrightarrow> OrderedDict pairs = pairs"
  using foldl_update_distinct [of "[]" pairs] by (simp add: OrderedDict_def)

subsection \<open>Loops\<close>

lemma wthen_assoc: "wthen (wthen a b) c = wthen a (wthen b c)"
proof
  fix out
  show "wthen (wthen a b) c out = wthen a (wthen b c) out"
    by (cases "a out"; cases "b (snd (projr (a out)))")
      (auto simp: wthen_def rbind_def split: sum.splits prod.splits)
qed

lemma roundtrips_nil: "roundtrips (\<lambda>out. Inr (0, out)) (\<lambda>st. Inr (acc, st)) acc"
  by (rule roundtripsI) (simp add: decodes_def)

lemma roundtrips_loop:
  assumes "roundtrips w1 body x"
    and "\<And>acc'. roundtrips w2 (for_range n body acc') (acc' @ xs)"
  shows "roundtrips (wthen w1 w2) (for_range (Suc n) body acc) (acc @ x # xs)"
proof (rule roundtripsI)
  fix out m out'
  assume "wthen w1 w2 out = Inr (m, out')"
  then obtain n1 o1 n2 where
    w1: "w1 out = Inr (n1, o1)" and w2: "w2 o1 = Inr (n2, out')" and m: "m = n1 + n2"
    unfolding wthen_eq_Inr by blast
  from assms(1) w1 obtain b1 where b1: "o1 = out @ b1" "n1 = length b1" "decodes body b1 x"
    by (rule roundtripsD)
  from assms(2) [of "acc @ [x]"] w2 obtain b2 where
    b2: "out' = o1 @ b2" "n2 = length b2"
      "decodes (for_range n body (acc @ [x])) b2 ((acc @ [x]) @ xs)"
    by (rule roundtripsD)
  have "decodes (for_range (Suc n) body acc) (b1 @ b2) (acc @ x # xs)"
    using b1(3) b2(3) by (simp add: decodes_def)
  with b1 b2 m show "\<exists>bs. out' = out @ bs \<and> m = length bs \<and>
      decodes (for_range (Suc n) body acc) bs (acc @ x # xs)"
    by (intro exI [of _ "b1 @ b2"]) simp
qed

lemma roundtrips_counted:
  assumes "roundtrips w (for_range (length xs) body []) xs"
  shows "roundtrips (wthen (write_fmt_I (length xs)) w)
           (\<lambda>st. rbind (read_fmt_I st) (\<lambda>(count, st1). for_range count body [] st1)) xs"
proof (rule roundtripsI)
  fix out m out'
  assume "wthen (write_fmt_I (length xs)) w out = Inr (m, out')"
  then obtain n1 o1 n2 where
    w1: "write_fmt_I (length xs) out = Inr (n1, o1)" and w2: "w o1 = Inr (n2, out')"
    and m: "m = n1 + n2"
    unfolding wthen_eq_Inr by blast
  from roundtrips_fmt_I w1 obtain b1 where
    b1: "o1 = out @ b1" "n1 = length b1" "decodes read_fmt_I b1 (length xs)"
    by (rule roundtripsD)
  from assms w2 obtain b2 where
    b2: "out' = o1 @ b2" "n2 = length b2" "decodes (for_range (length xs) body []) b2 xs"
    by (rule roundtripsD)
  have "decodes (\<lambda>st. rbind (read_fmt_I st) (\<lambda>(count, st1). for_range count body [] st1))
          (b1 @ b2) xs"
    using b1(3) b2(3) by (simp add: decodes_def)
  with b1 b2 m show "\<exists>bs. out' = out @ bs \<and> m = length bs \<and>
      decodes (\<lambda>st. rbind (read_fmt_I st) (\<lambda>(count, st1). for_range count body [] st1)) bs xs"
    by (intro exI [of _ "b1 @ b2"]) simp
qed

subsection \<open>One entry of a descriptor, one item of a list\<close>

lemma roundtrips_tagged:
  assumes K: "wf_constants K"
    and e: "roundtrips (write_element K e) (read K d (class_of e)) e"
  shows "roundtrips (wthen (write_ostype K (Some e)) (write_element K e))
           (List_read_item K (TYPES_get K d)) (Some e)"
proof (rule roundtripsI)
  fix out m out'
  assume "wthen (write_ostype K (Some e)) (write_element K e) out = Inr (m, out')"
  then obtain n1 o1 n2 where
    w1: "write_ostype K (Some e) out = Inr (n1, o1)" and
    w2: "write_element K e o1 = Inr (n2, out')" and m: "m = n1 + n2"
    unfolding wthen_eq_Inr by blast
  from w1 obtain t where t: "cls_ostype (class_of e) = Some t"
    and o1: "o1 = out @ OSType_value K t" "n1 = length (OSType_value K t)"
    by (auto simp: write_ostype_def write_bytes_def split: option.splits)
  from e w2 obtain b2 where
    b2: "out' = o1 @ b2" "n2 = length b2" "decodes (read K d (class_of e)) b2 e"
    by (rule roundtripsD)
  have "decodes (List_read_item K (TYPES_get K d)) (OSType_value K t @ b2) (Some e)"
    using b2(3) wf_constants_OSType [OF K, of t] TYPES_cls_ostype [OF t]
    by (simp add: decodes_def List_read_item_def fp_read_def TYPES_get_def as_decoder_def)
  with o1 b2 m show "\<exists>bs. out' = out @ bs \<and> m = length bs \<and>
      decodes (List_read_item K (TYPES_get K d)) bs (Some e)"
    by (intro exI [of _ "OSType_value K t @ b2"]) simp
qed

lemma Descriptor_read_item_alt:
  "Descriptor_read_item K T st =
     rbind (read_length_and_key K st) (\<lambda>(key, st1).
       rbind (List_read_item K T st1) (\<lambda>(v, st3).
         case v of None \<Rightarrow> Inl NameError | Some x \<Rightarrow> Inr ((key, v), st3)))"
  by (auto simp: Descriptor_read_item_def List_read_item_def rbind_def
      split: sum.splits prod.splits option.splits)

lemma roundtrips_entry:
  assumes K: "wf_constants K" and key: "wf_key K key"
    and e: "roundtrips (write_element K e) (read K d (class_of e)) e"
  shows "roundtrips
           (wthen (write_length_and_key key) (wthen (write_ostype K (Some e)) (write_element K e)))
           (Descriptor_read_item K (TYPES_get K d)) (key, Some e)"
proof (rule roundtripsI)
  fix out m out'
  let ?pair = "\<lambda>st. rbind (read_length_and_key K st) (\<lambda>(a, st1).
      rbind (List_read_item K (TYPES_get K d) st1) (\<lambda>(b, st2). Inr ((a, b), st2)))"
  assume "wthen (write_length_and_key key)
      (wthen (write_ostype K (Some e)) (write_element K e)) out = Inr (m, out')"
  with roundtrips_wthen [OF roundtrips_key [OF wf_constants_ClassID [OF K] key]
      roundtrips_tagged [OF K e]]
  obtain bs where bs: "out' = out @ bs" "m = length bs" "decodes ?pair bs (key, Some e)"
    by (rule roundtripsD)
  have "decodes (Descriptor_read_item K (TYPES_get K d)) bs (key, Some e)"
    unfolding decodes_def
  proof (intro allI)
    fix rest lg
    from bs(3) have "?pair \<lparr>unread = bs @ rest, warned = lg\<rparr> =
        Inr ((key, Some e), \<lparr>unread = rest, warned = lg\<rparr>)"
      by (simp add: decodes_def)
    then show "Descriptor_read_item K (TYPES_get K d) \<lparr>unread = bs @ rest, warned = lg\<rparr> =
        Inr ((key, Some e), \<lparr>unread = rest, warned = lg\<rparr>)"
      by (auto simp: Descriptor_read_item_alt rbind_eq_Inr)
  qed
  with bs show "\<exists>bs. out' = out @ bs \<and> m = length bs \<and>
      decodes (Descriptor_read_item K (TYPES_get K d)) bs (key, Some e)"
    by blast
qed

subsection \<open>Round trip of every element\<close>

lemma write_dict_items_Cons:
  "write_dict_items K ((key, Some e) # rest) =
     wthen (wthen (write_length_and_key key) (wthen (write_ostype K (Some e)) (write_element K e)))
       (write_dict_items K rest)"
  by (rule ext) (simp add: wthen_assoc)

lemma write_list_items_Cons:
  "write_list_items K (Some e # rest) =
     wthen (wthen (write_ostype K (Some e)) (write_element K e)) (write_list_items K rest)"
  by (rule ext) (simp add: wthen_assoc)

lemma write_element_Descriptor:
  "write_element K (Descriptor_obj c name classID items) =
     wthen (write_unicode_string name (Some 1))
       (wthen (write_length_and_key classID)
          (wthen (write_fmt_I (length items)) (write_dict_items K items)))"
  by (rule ext) simp

lemma write_element_List:
  "write_element K (List_obj c items) =
     wthen (write_fmt_I (length items)) (write_list_items K items)"
  by (rule ext) simp

lemma cls_read_simps:
  "defining_class c = Descriptor_cls \<Longrightarrow> cls_read K T c = Descriptor_read K T c"
  "defining_class c = List_cls \<Longrightarrow> cls_read K T c = List_read K T c"
  "defining_class c = Class_cls \<Longrightarrow> cls_read K T c = Class_read K c"
  "defining_class c = String_cls \<Longrightarrow> cls_read K T c = String_read c"
  "defining_class c = Integer_cls \<Longrightarrow> cls_read K T c = Integer_read c"
  "defining_class c = RawData_cls \<Longrightarrow> cls_read K T c = RawData_read c"
  "cls_read K T Property_cls = Property_read K"
  "cls_read K T UnitFloat_cls = UnitFloat_read K"
  "cls_read K T UnitFloats_cls = UnitFloats_read K"
  "cls_read K T Double_cls = Double_read"
  "cls_read K T EnumeratedReference_cls = EnumeratedReference_read K"
  "cls_read K T Offset_cls = Offset_read K"
  "cls_read K T Bool_cls = Bool_read"
  "cls_read K T LargeInteger_cls = LargeInteger_read"
  "cls_read K T Enum_cls = Enum_read K"
  by (simp_all add: cls_read_def)

lemma roundtrips_Descriptor:
  assumes K: "wf_constants K" and cid: "wf_key K classID"
    and dist: "distinct (map fst items)"
    and items: "roundtrips (write_dict_items K items)
        (for_range (length items) (Descriptor_read_item K T) []) items"
  shows "roundtrips (write_element K (Descriptor_obj c name classID items))
           (Descriptor_read K T c) (Descriptor_obj c name classID items)"
proof -
  note parts = roundtrips_wthen [OF roundtrips_unicode_string
      roundtrips_wthen [OF roundtrips_key [OF wf_constants_ClassID [OF K] cid]
        roundtrips_counted [OF items]]]
  have "roundtrips (write_element K (Descriptor_obj c name classID items))
          (Descriptor_read K T c)
          ((\<lambda>(a, b, xs). Descriptor_init c a b xs) (name, classID, items))"
    unfolding write_element_Descriptor
    by (rule roundtrips_map [OF parts]) (simp add: Descriptor_read_def rbind_assoc split_def)
  with dist show ?thesis
    by (simp add: Descriptor_init_def OrderedDict_distinct)
qed

lemma roundtrips_List:
  assumes items: "roundtrips (write_list_items K items)
        (for_range (length items) (List_read_item K T) []) items"
  shows "roundtrips (write_element K (List_obj c items)) (List_read K T c) (List_obj c items)"
  unfolding write_element_List
  by (rule roundtrips_map [OF roundtrips_counted [OF items]]) (simp add: List_read_def rbind_assoc split_def)

lemma roundtrips_element:
  "wf_constants K \<longrightarrow> wf_element K e \<longrightarrow>
     (\<forall>d. depth e \<le> d \<longrightarrow> roundtrips (write_element K e) (read K d (class_of e)) e)"
  and "wf_constants K \<longrightarrow> wf_dict_items K ditems \<longrightarrow>
     (\<forall>d acc. depth_dict_items ditems \<le> d \<longrightarrow>
        roundtrips (write_dict_items K ditems)
          (for_range (length ditems) (Descriptor_read_item K (TYPES_get K d)) acc)
          (acc @ ditems))"
  and "wf_constants K \<longrightarrow> wf_list_items K litems \<longrightarrow>
     (\<forall>d acc. depth_list_items litems \<le> d \<longrightarrow>
        roundtrips (write_list_items K litems)
          (for_range (length litems) (List_read_item K (TYPES_get K d)) acc)
          (acc @ litems))"
proof (induction K e and K ditems and K litems
    rule: wf_element_wf_dict_items_wf_list_items.induct)
  case (1 K c name classID items)
  show ?case
  proof (intro impI allI)
    fix d
    assume K: "wf_constants K" and wf: "wf_element K (Descriptor_obj c name classID items)"
      and d: "depth (Descriptor_obj c name classID items) \<le> d"
    from d obtain d' where d': "d = Suc d'" "depth_dict_items items \<le> d'"
      by (cases d) auto
    from 1 K wf have ih: "\<And>d acc. depth_dict_items items \<le> d \<Longrightarrow>
        roundtrips (write_dict_items K items)
          (for_range (length items) (Descriptor_read_item K (TYPES_get K d)) acc) (acc @ items)"
      by simp
    from ih [OF d'(2), of "[]"] have "roundtrips (write_dict_items K items)
        (for_range (length items) (Descriptor_read_item K (TYPES_get K d')) []) items"
      by simp
    with K wf have "roundtrips (write_element K (Descriptor_obj c name classID items))
        (Descriptor_read K (TYPES_get K d') c) (Descriptor_obj c name classID items)"
      by (intro roundtrips_Descriptor) simp_all
    with wf d' show "roundtrips (write_element K (Descriptor_obj c name classID items))
        (read K d (class_of (Descriptor_obj c name classID items)))
        (Descriptor_obj c name classID items)"
      by (simp add: read_Suc cls_read_simps del: read.simps write_element.simps)
  qed
next
  case (2 K c items)
  show ?case
  proof (intro impI allI)
    fix d
    assume K: "wf_constants K" and wf: "wf_element K (List_obj c items)"
      and d: "depth (List_obj c items) \<le> d"
    from d obtain d' where d': "d = Suc d'" "depth_list_items items \<le> d'"
      by (cases d) auto
    from 2 K wf have ih: "\<And>d acc. depth_list_items items \<le> d \<Longrightarrow>
        roundtrips (write_list_items K items)
          (for_range (length items) (List_read_item K (TYPES_get K d)) acc) (acc @ items)"
      by simp
    from ih [OF d'(2), of "[]"] have "roundtrips (write_list_items K items)
        (for_range (length items) (List_read_item K (TYPES_get K d')) []) items"
      by simp
    then have "roundtrips (write_element K (List_obj c items))
        (List_read K (TYPES_get K d') c) (List_obj c items)"
      by (rule roundtrips_List)
    with wf d' show "roundtrips (write_element K (List_obj c items))
        (read K d (class_of (List_obj c items))) (List_obj c items)"
      by (simp add: read_Suc cls_read_simps del: read.simps write_element.simps)
  qed
next
  case (18 K key e rest)
  show ?case
  proof (intro impI allI)
    fix d acc
    assume K: "wf_constants K" and wf: "wf_dict_items K ((key, Some e) # rest)"
      and d: "depth_dict_items ((key, Some e) # rest) \<le> d"
    from 18 K wf d have e: "roundtrips (write_element K e) (read K d (class_of e)) e"
      by simp
    from 18 K wf d have rest: "\<And>acc'. roundtrips (write_dict_items K rest)
        (for_range (length rest) (Descriptor_read_item K (TYPES_get K d)) acc') (acc' @ rest)"
      by simp
    from wf have key: "wf_key K key" by simp
    show "roundtrips (write_dict_items K ((key, Some e) # rest))
        (for_range (length ((key, Some e) # rest)) (Descriptor_read_item K (TYPES_get K d)) acc)
        (acc @ (key, Some e) # rest)"
      unfolding write_dict_items_Cons list.size(4) Suc_eq_plus1 [symmetric]
      using roundtrips_loop [OF roundtrips_entry [OF K key e] rest] by simp
  qed
next
  case (21 K e rest)
  show ?case
  proof (intro impI allI)
    fix d acc
    assume K: "wf_constants K" and wf: "wf_list_items K (Some e # rest)"
      and d: "depth_list_items (Some e # rest) \<le> d"
    from 21 K wf d have e: "roundtrips (write_element K e) (read K d (class_of e)) e"
      by simp
    from 21 K wf d have rest: "\<And>acc'. roundtrips (write_list_items K rest)
        (for_range (length rest) (List_read_item K (TYPES_get K d)) acc') (acc' @ rest)"
      by simp
    show "roundtrips (write_list_items K (Some e # rest))
        (for_range (length (Some e # rest)) (List_read_item K (TYPES_get K d)) acc)
        (acc @ Some e # rest)"
      unfolding write_list_items_Cons
      using roundtrips_loop [OF roundtrips_tagged [OF K e] rest] by simp
  qed
qed (auto simp: read_Suc cls_read_simps roundtrips_nil
    wf_constants_ClassID wf_constants_UnitFloatType
    roundtrips_Property roundtrips_UnitFloat roundtrips_UnitFloats roundtrips_Double
    roundtrips_Class roundtrips_String roundtrips_EnumeratedReference roundtrips_Offset
    roundtrips_Bool roundtrips_LargeInteger roundtrips_Integer roundtrips_Enum roundtrips_RawData
    Suc_le_eq gr0_conv_Suc
    simp del: read.simps)

section \<open>Claims\<close>

text \<open>
  C2, as the code has it. A key that is a member of \<open>DescriptorClassID\<close> is written in the
  compact form: the 4-byte length 0 followed by the value of the member. A key that is a
  \<open>bytes\<close> object is written as its length followed by its bytes, also when these bytes
  are the value of a member.
\<close>

theorem write_length_and_key_forms:
  "write_length_and_key (ClassID code) out =
     Inr (4 + length code, out @ [CHR 0x00, CHR 0x00, CHR 0x00, CHR 0x00] @ code) \<and>
   (length b < 2 ^ 32 \<longrightarrow>
      write_length_and_key (RawKey b) out = Inr (4 + length b, out @ nat_be 4 (length b) @ b))"
  by (simp add: write_length_and_key_ClassID write_length_and_key_RawKey nat_be_4_0
      del: nat_be.simps)

theorem write_length_and_key_forms_witness:
  "write_length_and_key (ClassID ''null'') [] =
     Inr (8, [CHR 0x00, CHR 0x00, CHR 0x00, CHR 0x00] @ ''null'') \<and>
   write_length_and_key (RawKey ''Nm  '') [] =
     Inr (8, [CHR 0x00, CHR 0x00, CHR 0x00, CHR 0x04] @ ''Nm  '')"
  using write_length_and_key_forms [of "''null''" "[]" "''Nm  ''"]
  by (simp add: eval_simps)

text \<open>
  C2, as it is stated, fails: \<open>''null''\<close> is the value of a member of the sample
  enumeration, and the \<open>bytes\<close> key \<open>b'null'\<close> is written with the length 4 in front,
  not in the compact form.
\<close>

theorem write_length_and_key_raw_counterexample:
  "''null'' \<in> set (DescriptorClassID_values sample_constants) \<and>
   write_length_and_key (RawKey ''null'') [] =
     Inr (8, [CHR 0x00, CHR 0x00, CHR 0x00, CHR 0x04] @ ''null'') \<and>
   write_length_and_key (RawKey ''null'') [] \<noteq>
     Inr (8, [CHR 0x00, CHR 0x00, CHR 0x00, CHR 0x00] @ ''null'')"
  by (simp add: sample_constants_def write_length_and_key_def wthen_def write_fmt_I_def
      write_bytes_def eval_simps)

lemma read_fmt_I_bytes:
  "length len = 4 \<Longrightarrow>
   read_fmt_I \<lparr>unread = len @ rest, warned = lg\<rparr> =
     Inr (be_nat len, \<lparr>unread = rest, warned = lg\<rparr>)"
  by (simp add: read_fmt_I_def read_exact_append)

lemma read_unicode_string_empty:
  "read_unicode_string p \<lparr>unread = CHR 0x00 # CHR 0x00 # CHR 0x00 # CHR 0x00 # rest, warned = lg\<rparr>
     = Inr ([], \<lparr>unread = rest, warned = lg\<rparr>)"
  using decodes_read_unicode_string [of "[]" p]
  by (cases p)
    (simp_all add: decodes_def nat_be_4_0 padding_size_def utf16_be_encode_def del: nat_be.simps)

text \<open>
  C4. When the 4 bytes of the length are 0 and the 4 bytes after them are not the value of
  a member of \<open>DescriptorClassID\<close>, \<open>read_length_and_key\<close> returns these 4 bytes as a
  \<open>bytes\<close> key and the only other effect is one warning, which names them; a descriptor
  that has such a classID is read to its end. When the length \<open>L\<close> is not 0, the key is
  the next \<open>L\<close> bytes of the stream (all that is left of it, if it is shorter).
\<close>

theorem read_length_and_key_fallback:
  assumes "length len = 4"
  shows "(be_nat len = 0 \<and> length code = 4 \<and> code \<notin> set (DescriptorClassID_values K) \<longrightarrow>
            read_length_and_key K \<lparr>unread = len @ code @ rest, warned = lg\<rparr> =
              Inr (RawKey code, \<lparr>unread = rest, warned = lg @ [code]\<rparr>) \<and>
            Descriptor_read K T c
                \<lparr>unread = [CHR 0x00, CHR 0x00, CHR 0x00, CHR 0x00] @ len @ code @
                   [CHR 0x00, CHR 0x00, CHR 0x00, CHR 0x00] @ rest, warned = lg\<rparr> =
              Inr (Descriptor_obj c [] (RawKey code) [],
                   \<lparr>unread = rest, warned = lg @ [code]\<rparr>)) \<and>
         (be_nat len \<noteq> 0 \<longrightarrow>
            read_length_and_key K \<lparr>unread = len @ rest, warned = lg\<rparr> =
              Inr (RawKey (take (be_nat len) rest),
                   \<lparr>unread = drop (be_nat len) rest, warned = lg\<rparr>))"
proof -
  have zero: "read_length_and_key K \<lparr>unread = len @ code @ r, warned = lg\<rparr> =
      Inr (RawKey code, \<lparr>unread = r, warned = lg @ [code]\<rparr>)"
    if "be_nat len = 0" "length code = 4" "code \<notin> set (DescriptorClassID_values K)" for r
    using that assms
    by (simp add: read_length_and_key_def read_fmt_I_bytes fp_read_def DescriptorClassID_def)
  have count: "read_fmt_I \<lparr>unread = [CHR 0x00, CHR 0x00, CHR 0x00, CHR 0x00] @ rest, warned = l\<rparr>
      = Inr (0, \<lparr>unread = rest, warned = l\<rparr>)" for l
    using read_fmt_I_append [of 0 rest l] by (simp add: nat_be_4_0 del: nat_be.simps)
  have nonzero: "read_length_and_key K \<lparr>unread = len @ rest, warned = lg\<rparr> =
      Inr (RawKey (take (be_nat len) rest), \<lparr>unread = drop (be_nat len) rest, warned = lg\<rparr>)"
    if "be_nat len \<noteq> 0"
    using that assms
    by (simp add: read_length_and_key_def read_fmt_I_bytes fp_read_def)
  show ?thesis
    using zero [of rest]
      zero [of "[CHR 0x00, CHR 0x00, CHR 0x00, CHR 0x00] @ rest"] count nonzero
    by (simp add: Descriptor_read_def read_unicode_string_empty Descriptor_init_def
        OrderedDict_def)
qed

theorem read_length_and_key_fallback_witness:
  "read_length_and_key sample_constants
      \<lparr>unread = [CHR 0x00, CHR 0x00, CHR 0x00, CHR 0x00] @ ''abcd'' @ ''xyz'', warned = []\<rparr> =
     Inr (RawKey ''abcd'', \<lparr>unread = ''xyz'', warned = [''abcd'']\<rparr>) \<and>
   Descriptor_read sample_constants (TYPES_get sample_constants 1) Descriptor_cls
      \<lparr>unread = [CHR 0x00, CHR 0x00, CHR 0x00, CHR 0x00, CHR 0x00, CHR 0x00, CHR 0x00, CHR 0x00]
                 @ ''abcd'' @ [CHR 0x00, CHR 0x00, CHR 0x00, CHR 0x00], warned = []\<rparr> =
     Inr (Descriptor_obj Descriptor_cls [] (RawKey ''abcd'') [],
          \<lparr>unread = [], warned = [''abcd'']\<rparr>) \<and>
   read_length_and_key sample_constants
      \<lparr>unread = [CHR 0x00, CHR 0x00, CHR 0x00, CHR 0x02] @ ''Nmxyz'', warned = []\<rparr> =
     Inr (RawKey ''Nm'', \<lparr>unread = ''xyz'', warned = []\<rparr>)"
  using read_length_and_key_fallback [of "[CHR 0x00, CHR 0x00, CHR 0x00, CHR 0x00]" "''abcd''"
      sample_constants "''xyz''" "[]" "TYPES_get sample_constants 1" Descriptor_cls]
    read_length_and_key_fallback [of "[CHR 0x00, CHR 0x00, CHR 0x00, CHR 0x00]" "''abcd''"
      sample_constants "[]" "[]" "TYPES_get sample_constants 1" Descriptor_cls]
    read_length_and_key_fallback [of "[CHR 0x00, CHR 0x00, CHR 0x00, CHR 0x02]" "''abcd''"
      sample_constants "''Nmxyz''" "[]" "TYPES_get sample_constants 1" Descriptor_cls]
  by (simp add: be_nat_def sample_constants_def)

text \<open>
  The patterns of the quiet NaN, of a NaN with the sign bit set, of infinity, of minus
  infinity and of 1.5.
\<close>

lemma is_nan_patterns:
  "is_nan 0x7FF8000000000000" "is_nan 0xFFF0000000000001"
  "\<not> is_nan 0x7FF0000000000000" "\<not> is_nan 0xFFF0000000000000"
  "\<not> is_nan 0x3FF8000000000000"
  by (simp_all add: is_nan_def)

lemma wf_sample_constants: "wf_constants sample_constants"
  by (simp add: wf_constants_def sample_constants_def all_ostypes_def OSType_def)

lemmas write_eval_simps =
  wthen_def write_fmt_I_def write_bytes_def write_unicode_string_def utf16_be_encode_def
  padding_size_def write_length_and_key_def write_ostype_def
  Property_write_def UnitFloat_write_def UnitFloats_write_def Double_write_def Class_write_def
  String_write_def EnumeratedReference_write_def Offset_write_def Bool_write_def
  LargeInteger_write_def Integer_write_def Enum_write_def RawData_write_def
  write_fmt_i_def write_fmt_q_def write_signed_def write_fmt_bool_def write_fmt_d_def
  write_fmt_4sd_def write_fmt_4sI_doubles_def write_length_block_def pack_d_def pack_4s_def

lemma write_sample_element:
  "write_element sample_constants sample_element [] = Inr (130, sample_bytes)"
  by (simp add: sample_element_def sample_bytes_def sample_constants_def write_eval_simps eval_simps)

text \<open>
  C1, as the code has it. Let \<open>v\<close> be an element that the classes can build, in which
  no \<open>bytes\<close> key is empty and no float is a NaN, and let writing \<open>v\<close> succeed. Then
  the stream has grown by the bytes written, and reading these bytes back with the class of
  \<open>v\<close> gives \<open>v\<close> itself: the same classes (so the same type tags), the same keys in
  the same order, the same items in the same order, the same values. The read leaves what
  follows the bytes untouched, reports nothing, and needs no more nested calls than \<open>v\<close>
  is deep. A NaN is left out because the float that is read back, though it has the same
  pattern, is not equal to it in the program.
\<close>

theorem read_write_roundtrip:
  assumes "wf_constants K" and "wf_element K v"
    and "write_element K v out = Inr (n, out')" and "depth v \<le> d"
  shows "\<exists>bs. out' = out @ bs \<and> n = length bs \<and>
           read K d (class_of v) \<lparr>unread = bs @ rest, warned = lg\<rparr> =
             Inr (v, \<lparr>unread = rest, warned = lg\<rparr>)"
proof -
  from assms(1,2,4) have "roundtrips (write_element K v) (read K d (class_of v)) v"
    using roundtrips_element(1) [of K v] by blast
  from this assms(3) obtain bs where
    "out' = out @ bs" "n = length bs" "decodes (read K d (class_of v)) bs v"
    by (rule roundtripsD)
  then show ?thesis
    by (auto simp: decodes_def)
qed

theorem read_write_roundtrip_witness:
  "write_element sample_constants sample_element [] = Inr (130, sample_bytes) \<and>
   read sample_constants 3 Descriptor_cls \<lparr>unread = sample_bytes, warned = []\<rparr> =
     Inr (sample_element, \<lparr>unread = [], warned = []\<rparr>) \<and>
   write_element sample_constants (Double_obj 0x3FF8000000000000) [] =
     Inr (8, [CHR 0x3F, CHR 0xF8, CHR 0x00, CHR 0x00, CHR 0x00, CHR 0x00, CHR 0x00, CHR 0x00]) \<and>
   read sample_constants 1 Double_cls
       \<lparr>unread = [CHR 0x3F, CHR 0xF8, CHR 0x00, CHR 0x00, CHR 0x00, CHR 0x00, CHR 0x00, CHR 0x00],
         warned = []\<rparr> =
     Inr (Double_obj 0x3FF8000000000000, \<lparr>unread = [], warned = []\<rparr>)"
proof -
  have wf: "wf_element sample_constants sample_element"
    by (simp add: sample_element_def sample_constants_def)
  have d: "depth sample_element \<le> 3"
    by (simp add: sample_element_def)
  have c: "class_of sample_element = Descriptor_cls"
    by (simp add: sample_element_def)
  have tree: "read sample_constants 3 Descriptor_cls \<lparr>unread = sample_bytes, warned = []\<rparr> =
      Inr (sample_element, \<lparr>unread = [], warned = []\<rparr>)"
    using read_write_roundtrip [OF wf_sample_constants wf write_sample_element d, of "[]" "[]"]
    by (simp add: c)
  have wf': "wf_element sample_constants (Double_obj 0x3FF8000000000000)"
    by (simp add: is_nan_def)
  have w': "write_element sample_constants (Double_obj 0x3FF8000000000000) [] =
      Inr (8, [CHR 0x3F, CHR 0xF8, CHR 0x00, CHR 0x00, CHR 0x00, CHR 0x00, CHR 0x00, CHR 0x00])"
    by (simp add: write_eval_simps eval_simps)
  have d': "depth (Double_obj 0x3FF8000000000000) \<le> 1"
    by simp
  have float: "read sample_constants 1 Double_cls
       \<lparr>unread = [CHR 0x3F, CHR 0xF8, CHR 0x00, CHR 0x00, CHR 0x00, CHR 0x00, CHR 0x00, CHR 0x00],
         warned = []\<rparr> =
     Inr (Double_obj 0x3FF8000000000000, \<lparr>unread = [], warned = []\<rparr>)"
    using read_write_roundtrip [OF wf_sample_constants wf' w' d', of "[]" "[]"]
    by simp
  from write_sample_element tree w' float show ?thesis
    by simp
qed

text \<open>
  C1, as it is stated, fails for a key that is the empty \<open>bytes\<close> object. A descriptor
  with the classID \<open>b''\<close> and no entries is written as 12 zero bytes: the name, the
  length 0 of the key and the count. Reading them back takes the length 0 for the mark of a
  4-byte code, takes the count for that code, and finds the stream at its end where the
  count should be.
\<close>

theorem read_write_empty_key_counterexample:
  "write_element sample_constants (Descriptor_obj Descriptor_cls [] (RawKey []) []) [] =
     Inr (12, replicate 12 (CHR 0x00)) \<and>
   read sample_constants 1 Descriptor_cls \<lparr>unread = replicate 12 (CHR 0x00), warned = []\<rparr> =
     Inl FormatError"
  by (simp add: sample_constants_def write_eval_simps eval_simps cls_read_simps
      Descriptor_read_def read_unicode_string_def read_fmt_I_def read_exact_def fp_read_def
      read_length_and_key_def DescriptorClassID_def be_nat_def)

subsection \<open>Every writer appends what it counts\<close>

lemma appendsI:
  assumes "\<And>out n out'. w out = Inr (n, out') \<Longrightarrow> \<exists>bs. out' = out @ bs \<and> n = length bs"
  shows "appends w"
  using assms by (simp add: appends_def)

lemma appends_wthen:
  assumes "appends w1" "appends w2"
  shows "appends (wthen w1 w2)"
proof (rule appendsI)
  fix out n out'
  assume "wthen w1 w2 out = Inr (n, out')"
  then obtain n1 o1 n2 where
    w1: "w1 out = Inr (n1, o1)" and w2: "w2 o1 = Inr (n2, out')" and n: "n = n1 + n2"
    unfolding wthen_eq_Inr by blast
  from assms(1) w1 obtain b1 where "o1 = out @ b1" "n1 = length b1"
    unfolding appends_def by blast
  moreover from assms(2) w2 obtain b2 where "out' = o1 @ b2" "n2 = length b2"
    unfolding appends_def by blast
  ultimately show "\<exists>bs. out' = out @ bs \<and> n = length bs"
    using n by (intro exI [of _ "b1 @ b2"]) simp
qed

lemma appends_write_bytes [simp]: "appends (write_bytes data)"
  by (simp add: appends_def write_bytes_def)

lemma appends_fail [simp]: "appends (\<lambda>out. Inl e)"
  by (simp add: appends_def)

lemma appends_if:
  "appends w \<Longrightarrow> appends (\<lambda>out. if b then Inl e else w out)"
  by (simp add: appends_def)

lemma appends_write_fmt_I [simp]: "appends (write_fmt_I n)"
  by (auto simp: appends_def write_fmt_I_eq_Inr)

lemma appends_write_signed [simp]: "appends (write_signed w v)"
  by (auto simp: appends_def write_signed_def write_bytes_def split: if_splits)

lemma appends_write_unicode_string [simp]: "appends (write_unicode_string s p)"
  unfolding write_unicode_string_def by (intro appends_wthen) simp_all

lemma appends_write_length_and_key [simp]: "appends (write_length_and_key k)"
  unfolding write_length_and_key_def by (cases k) (simp_all add: appends_wthen)

lemma appends_write_ostype [simp]: "appends (write_ostype K item)"
  by (auto simp: appends_def write_ostype_def write_bytes_def split: option.splits)

lemma appends_write_length_block [simp]: "appends (write_length_block (write_bytes b))"
  unfolding appends_def using roundtrips_length_block [of b, unfolded roundtrips_def] by blast

lemma appends_scalars [simp]:
  "appends (Property_write name classID keyID)"
  "appends (UnitFloat_write u x)"
  "appends (UnitFloats_write u xs)"
  "appends (Double_write x)"
  "appends (Class_write name classID)"
  "appends (String_write s)"
  "appends (EnumeratedReference_write name classID typeID enum)"
  "appends (Offset_write name classID v)"
  "appends (Bool_write b)"
  "appends (LargeInteger_write v)"
  "appends (Integer_write v)"
  "appends (Enum_write typeID enum)"
  "appends (RawData_write bs)"
  unfolding Property_write_def UnitFloat_write_def UnitFloats_write_def Double_write_def
    Class_write_def String_write_def EnumeratedReference_write_def Offset_write_def
    Bool_write_def LargeInteger_write_def Integer_write_def Enum_write_def RawData_write_def
    write_fmt_4sd_def write_fmt_d_def write_fmt_bool_def write_fmt_q_def write_fmt_i_def
  by (intro appends_wthen appends_if appends_write_bytes appends_write_fmt_I appends_write_signed
        appends_write_unicode_string appends_write_length_and_key appends_write_length_block
      | simp add: appends_def write_fmt_4sI_doubles_def write_bytes_def)+

lemma write_element_scalars:
  "write_element K (Property_obj name classID keyID) = Property_write name classID keyID"
  "write_element K (UnitFloat_obj u x) = UnitFloat_write u x"
  "write_element K (UnitFloats_obj u xs) = UnitFloats_write u xs"
  "write_element K (Double_obj x) = Double_write x"
  "write_element K (Class_obj c name classID) = Class_write name classID"
  "write_element K (String_obj c s) = String_write s"
  "write_element K (EnumeratedReference_obj name classID typeID enum) =
     EnumeratedReference_write name classID typeID enum"
  "write_element K (Offset_obj name classID v) = Offset_write name classID v"
  "write_element K (Bool_obj b) = Bool_write b"
  "write_element K (LargeInteger_obj i) = LargeInteger_write i"
  "write_element K (Integer_obj c i) = Integer_write i"
  "write_element K (Enum_obj typeID enum) = Enum_write typeID enum"
  "write_element K (RawData_obj c bs) = RawData_write bs"
  by (rule ext, simp)+

lemma write_items_Nil:
  "write_dict_items K [] = (\<lambda>out. Inr (0, out))"
  "write_list_items K [] = (\<lambda>out. Inr (0, out))"
  "write_list_items K (None # rest) = write_ostype K None"
  by (rule ext, simp)+

lemma write_dict_items_None:
  "write_dict_items K ((key, None) # rest) =
     wthen (write_length_and_key key) (write_ostype K None)"
  by (rule ext) simp

lemma appends_write_element: "appends (write_element K e)"
  and appends_write_dict_items: "appends (write_dict_items K ditems)"
  and appends_write_list_items: "appends (write_list_items K litems)"
proof (induction K e and K ditems and K litems
    rule: wf_element_wf_dict_items_wf_list_items.induct)
  case (1 K c name classID items)
  then show ?case
    unfolding write_element_Descriptor by (intro appends_wthen) simp_all
next
  case (2 K c items)
  then show ?case
    unfolding write_element_List by (intro appends_wthen) simp_all
next
  case (17 K key rest)
  show ?case
    unfolding write_dict_items_None by (intro appends_wthen) simp_all
next
  case (18 K key e rest)
  then show ?case
    unfolding write_dict_items_Cons by (intro appends_wthen) simp_all
next
  case (21 K e rest)
  then show ?case
    unfolding write_list_items_Cons by (intro appends_wthen) simp_all
qed (simp_all add: write_element_scalars write_items_Nil, simp_all add: appends_def)

text \<open>
  C8. When \<open>Descriptor.write\<close> returns, the stream is the stream it was given followed
  by the bytes written, and the number returned is the number of these bytes. The bytes
  are those of the padded name, of the classID, of the 4-byte count and of the entries,
  each with its key, its tag and its value; the number is the sum of their counts.
\<close>

theorem Descriptor_write_returns_bytes_written:
  assumes "write_element K (Descriptor_obj c name classID items) out = Inr (n, out')"
  shows "\<exists>name_bytes classID_bytes items_bytes.
           write_unicode_string name (Some 1) out = Inr (length name_bytes, out @ name_bytes) \<and>
           write_length_and_key classID (out @ name_bytes) =
             Inr (length classID_bytes, out @ name_bytes @ classID_bytes) \<and>
           write_dict_items K items (out @ name_bytes @ classID_bytes @ nat_be 4 (length items)) =
             Inr (length items_bytes, out') \<and>
           out' = out @ name_bytes @ classID_bytes @ nat_be 4 (length items) @ items_bytes \<and>
           n = length name_bytes + length classID_bytes + 4 + length items_bytes \<and>
           n = length out' - length out"
proof -
  from assms obtain n1 o1 n2 o2 n3 o3 n4 where
    w1: "write_unicode_string name (Some 1) out = Inr (n1, o1)" and
    w2: "write_length_and_key classID o1 = Inr (n2, o2)" and
    w3: "write_fmt_I (length items) o2 = Inr (n3, o3)" and
    w4: "write_dict_items K items o3 = Inr (n4, out')" and
    n: "n = n1 + (n2 + (n3 + n4))"
    unfolding write_element_Descriptor wthen_eq_Inr by blast
  from w1 obtain b1 where b1: "o1 = out @ b1" "n1 = length b1"
    using appends_write_unicode_string unfolding appends_def by blast
  from w2 obtain b2 where b2: "o2 = o1 @ b2" "n2 = length b2"
    using appends_write_length_and_key unfolding appends_def by blast
  from w3 have b3: "o3 = o2 @ nat_be 4 (length items)" "n3 = 4"
    by (simp_all add: write_fmt_I_eq_Inr)
  from w4 obtain b4 where b4: "out' = o3 @ b4" "n4 = length b4"
    using appends_write_dict_items unfolding appends_def by blast
  show ?thesis
    using w1 w2 w4 b1 b2 b3 b4 n
    by (intro exI [of _ b1] exI [of _ b2] exI [of _ b4]) simp
qed

theorem Descriptor_write_returns_bytes_written_witness:
  "write_element sample_constants sample_element [] = Inr (130, sample_bytes) \<and>
   (130::nat) = length sample_bytes - length ([]::bytes)"
proof -
  have w: "write_element sample_constants
      (Descriptor_obj Descriptor_cls [] (ClassID ''null'')
        [(RawKey ''Nm  '', Some (String_obj String_cls [0x4C, 0x61, 0x79, 0x65, 0x72, 0x20, 0x31])),
         (ClassID ''Lyr '',
            Some (Descriptor_obj GlobalObject_cls [0x41] (RawKey ''sub'')
                    [(RawKey ''k'', Some (Bool_obj True))])),
         (RawKey ''list'',
            Some (List_obj Reference_cls
                    [Some (Integer_obj Integer_cls 5), Some (Bool_obj True),
                     Some (String_obj Name_cls [0x78])]))]) [] = Inr (130, sample_bytes)"
    using write_sample_element by (simp add: sample_element_def)
  from Descriptor_write_returns_bytes_written [OF w]
  have "(130::nat) = length sample_bytes - length ([]::bytes)"
    by blast
  with write_sample_element show ?thesis
    by blast
qed

subsection \<open>The ordered dictionary\<close>

lemma foldl_update_keys:
  "fst ` set (foldl (\<lambda>d (k, v). AList.update k v d) d pairs) = fst ` set d \<union> fst ` set pairs"
  by (induction pairs arbitrary: d) (auto simp: dom_update split_def)

lemma foldl_update_distinct_keys:
  "distinct (map fst d) \<Longrightarrow>
   distinct (map fst (foldl (\<lambda>d (k, v). AList.update k v d) d pairs))"
  by (induction pairs arbitrary: d) (auto simp: distinct_update split_def)

lemma foldl_update_map_of:
  "map_of (foldl (\<lambda>d (k, v). AList.update k v d) d pairs) = map_of d ++ map_of (rev pairs)"
proof (induction pairs arbitrary: d)
  case Nil
  then show ?case by simp
next
  case (Cons p pairs)
  obtain k v where p: "p = (k, v)" by (cases p)
  have "map_of (foldl (\<lambda>d (k, v). AList.update k v d) (AList.update k v d) pairs) =
      map_of (AList.update k v d) ++ map_of (rev pairs)"
    by (rule Cons.IH)
  also have "\<dots> = map_of d ++ map_of (rev pairs @ [(k, v)])"
    by (simp add: update_conv' map_add_upd_left fun_eq_iff map_add_def split: option.splits)
  finally show ?case using p by simp
qed

lemma distinct_OrderedDict: "distinct (map fst (OrderedDict pairs))"
  using foldl_update_distinct_keys [of "[]" pairs] by (simp add: OrderedDict_def)

lemma keys_OrderedDict: "fst ` set (OrderedDict pairs) = fst ` set pairs"
  using foldl_update_keys [of "[]" pairs] by (simp add: OrderedDict_def)

lemma map_of_OrderedDict: "map_of (OrderedDict pairs) = map_of (rev pairs)"
  using foldl_update_map_of [of "[]" pairs] by (simp add: OrderedDict_def)

lemma length_OrderedDict: "length (OrderedDict pairs) = card (fst ` set pairs)"
proof -
  have "length (OrderedDict pairs) = length (map fst (OrderedDict pairs))" by simp
  also have "\<dots> = card (set (map fst (OrderedDict pairs)))"
    using distinct_OrderedDict [of pairs] by (simp only: distinct_card)
  also have "\<dots> = card (fst ` set pairs)"
    by (simp add: keys_OrderedDict)
  finally show ?thesis .
qed

lemma length_OrderedDict_le: "length (OrderedDict pairs) \<le> length pairs"
proof -
  have "card (set (map fst pairs)) \<le> length (map fst pairs)"
    by (rule card_length)
  then show ?thesis by (simp add: length_OrderedDict)
qed

lemma length_OrderedDict_less:
  assumes "\<not> distinct (map fst pairs)"
  shows "length (OrderedDict pairs) < length pairs"
proof -
  have "card (set (map fst pairs)) \<noteq> length (map fst pairs)"
    using assms card_distinct by blast
  moreover have "card (set (map fst pairs)) \<le> length (map fst pairs)"
    by (rule card_length)
  ultimately show ?thesis by (simp add: length_OrderedDict)
qed

lemma for_range_length:
  "for_range n body acc st = Inr (xs, st') \<Longrightarrow> length xs = length acc + n"
proof (induction n arbitrary: acc st)
  case 0
  then show ?case by simp
next
  case (Suc n)
  from Suc.prems obtain x st1 where "body st = Inr (x, st1)"
    and "for_range n body (acc @ [x]) st1 = Inr (xs, st')"
    by (auto simp: rbind_eq_Inr)
  with Suc.IH [of "acc @ [x]" st1] show ?case by simp
qed

lemma Descriptor_read_eq_Inr:
  "Descriptor_read K T c st = Inr (e, st') \<longleftrightarrow>
     (\<exists>name st1 classID st2 count st3 pairs.
        read_unicode_string (Some 1) st = Inr (name, st1) \<and>
        read_length_and_key K st1 = Inr (classID, st2) \<and>
        read_fmt_I st2 = Inr (count, st3) \<and>
        for_range count (Descriptor_read_item K T) [] st3 = Inr (pairs, st') \<and>
        e = Descriptor_obj c name classID (OrderedDict pairs))"
  by (auto simp: Descriptor_read_def Descriptor_init_def rbind_eq_Inr)

text \<open>
  C9. The items of a descriptor go through \<open>OrderedDict\<close>, so the keys of every
  descriptor are distinct, and a pair whose key is already there replaces its value. When
  \<open>Descriptor.read\<close> returns, its items are the ordered dictionary of the \<open>count\<close>
  entries it has decoded: under each key the value of the last entry with that key, at most
  \<open>count\<close> items, and fewer when a key was repeated. \<open>Descriptor.write\<close> then writes the
  number of items as the count.
\<close>

theorem Descriptor_read_unique_keys:
  assumes "Descriptor_read K T c st = Inr (e, st')"
  shows "\<exists>name st1 classID st2 count st3 pairs.
           read_unicode_string (Some 1) st = Inr (name, st1) \<and>
           read_length_and_key K st1 = Inr (classID, st2) \<and>
           read_fmt_I st2 = Inr (count, st3) \<and>
           for_range count (Descriptor_read_item K T) [] st3 = Inr (pairs, st') \<and>
           length pairs = count \<and>
           e = Descriptor_obj c name classID (OrderedDict pairs) \<and>
           distinct (map fst (OrderedDict pairs)) \<and>
           map_of (OrderedDict pairs) = map_of (rev pairs) \<and>
           length (OrderedDict pairs) \<le> count \<and>
           (\<not> distinct (map fst pairs) \<longrightarrow> length (OrderedDict pairs) < count) \<and>
           write_element K e =
             wthen (write_unicode_string name (Some 1))
               (wthen (write_length_and_key classID)
                  (wthen (write_fmt_I (length (OrderedDict pairs)))
                     (write_dict_items K (OrderedDict pairs))))"
proof -
  from assms obtain name st1 classID st2 count st3 pairs where
    r1: "read_unicode_string (Some 1) st = Inr (name, st1)" and
    r2: "read_length_and_key K st1 = Inr (classID, st2)" and
    r3: "read_fmt_I st2 = Inr (count, st3)" and
    r4: "for_range count (Descriptor_read_item K T) [] st3 = Inr (pairs, st')" and
    e: "e = Descriptor_obj c name classID (OrderedDict pairs)"
    unfolding Descriptor_read_eq_Inr by blast
  from r4 have len: "length pairs = count"
    by (simp add: for_range_length)
  show ?thesis
    using r1 r2 r3 r4 len e length_OrderedDict_le [of pairs] length_OrderedDict_less [of pairs]
    by (intro exI [of _ name] exI [of _ st1] exI [of _ classID] exI [of _ st2]
        exI [of _ count] exI [of _ st3] exI [of _ pairs])
      (simp add: distinct_OrderedDict map_of_OrderedDict write_element_Descriptor)
qed

lemmas read_eval_simps =
  read_unicode_string_def read_fmt_I_def read_exact_def fp_read_def read_length_and_key_def
  DescriptorClassID_def be_nat_def Descriptor_read_def Descriptor_read_item_def
  List_read_def List_read_item_def OSType_def all_ostypes_def TYPES_get_def as_decoder_def
  cls_read_def Descriptor_init_def OrderedDict_def utf16_be_encode_def padding_size_def
  Property_read_def UnitFloat_read_def UnitFloats_read_def Double_read_def Class_read_def
  String_read_def EnumeratedReference_read_def Offset_read_def Bool_read_def
  LargeInteger_read_def Integer_read_def Enum_read_def RawData_read_def
  read_fmt_i_def read_fmt_q_def read_fmt_bool_def read_fmt_d_def read_fmt_4sd_def
  read_fmt_4sI_def read_fmt_doubles_def read_length_block_def to_signed_def
  UnitFloat_init_def UnitFloats_init_def UnitFloatType_def

theorem Descriptor_read_unique_keys_witness:
  "Descriptor_read sample_constants (TYPES_get sample_constants 1) Descriptor_cls
      \<lparr>unread = repeated_key_bytes, warned = []\<rparr> =
     Inr (Descriptor_obj Descriptor_cls [] (ClassID ''null'')
            [(RawKey ''Nm  '', Some (Integer_obj Integer_cls 7))],
          \<lparr>unread = [], warned = []\<rparr>) \<and>
   (\<exists>pairs :: (key \<times> element option) list.
      length pairs = 2 \<and>
      OrderedDict pairs = [(RawKey ''Nm  '', Some (Integer_obj Integer_cls 7))])"
proof -
  have r: "Descriptor_read sample_constants (TYPES_get sample_constants 1) Descriptor_cls
      \<lparr>unread = repeated_key_bytes, warned = []\<rparr> =
     Inr (Descriptor_obj Descriptor_cls [] (ClassID ''null'')
            [(RawKey ''Nm  '', Some (Integer_obj Integer_cls 7))],
          \<lparr>unread = [], warned = []\<rparr>)"
    by (simp add: repeated_key_bytes_def sample_constants_def read_eval_simps eval_simps)
  from Descriptor_read_unique_keys [OF r] obtain name st1 classID st2 count st3 pairs where
    r1: "read_unicode_string (Some 1) \<lparr>unread = repeated_key_bytes, warned = []\<rparr> =
      Inr (name, st1)" and
    r2: "read_length_and_key sample_constants st1 = Inr (classID, st2)" and
    r3: "read_fmt_I st2 = Inr (count, st3)" and
    len: "length pairs = count" and
    e: "Descriptor_obj Descriptor_cls [] (ClassID ''null'')
          [(RawKey ''Nm  '', Some (Integer_obj Integer_cls 7))] =
        Descriptor_obj Descriptor_cls name classID (OrderedDict pairs)"
    by blast
  from r1 have "st1 = \<lparr>unread = drop 4 repeated_key_bytes, warned = []\<rparr>"
    by (auto simp: repeated_key_bytes_def read_eval_simps)
  with r2 have "st2 = \<lparr>unread = drop 12 repeated_key_bytes, warned = []\<rparr>"
    by (auto simp: repeated_key_bytes_def sample_constants_def read_eval_simps)
  with r3 have "count = 2"
    by (auto simp: repeated_key_bytes_def read_eval_simps)
  with len e r show ?thesis
    by auto
qed

subsection \<open>Failures\<close>

lemma OSType_error: "OSType K tag = Inl e \<Longrightarrow> e = ValueError"
  by (auto simp: OSType_def split: option.splits)

lemma List_read_item_unregistered:
  assumes "\<not> is_registered K T (take 4 (unread st))"
  shows "List_read_item K T st = Inl ValueError"
proof (cases "OSType K (take 4 (unread st))")
  case (Inl e)
  then show ?thesis
    using OSType_error [OF Inl] by (simp add: List_read_item_def fp_read_def)
next
  case (Inr t)
  with assms have "T t = None"
    by (simp add: is_registered_def)
  with Inr show ?thesis
    by (simp add: List_read_item_def fp_read_def)
qed

lemma Descriptor_read_item_unregistered:
  assumes "read_length_and_key K st = Inr (key, st1)"
    and "\<not> is_registered K T (take 4 (unread st1))"
  shows "Descriptor_read_item K T st = Inl ValueError"
  using assms(1) List_read_item_unregistered [OF assms(2)]
  by (simp add: Descriptor_read_item_alt)

lemma for_range_fail:
  "for_range k body acc st0 = Inr (xs, st) \<Longrightarrow> body st = Inl e \<Longrightarrow> k < n \<Longrightarrow>
   for_range n body acc st0 = Inl e"
proof (induction k arbitrary: acc st0 n)
  case 0
  then obtain m where "n = Suc m" by (cases n) auto
  with 0 show ?case by simp
next
  case (Suc k)
  from Suc.prems(1) obtain x s1 where x: "body st0 = Inr (x, s1)"
    and rest: "for_range k body (acc @ [x]) s1 = Inr (xs, st)"
    by (auto simp: rbind_eq_Inr)
  from Suc.prems(3) obtain m where m: "n = Suc m" "k < m" by (cases n) auto
  from Suc.IH [OF rest Suc.prems(2) m(2)] x m show ?case by simp
qed

text \<open>
  C3. Let \<open>Descriptor.read\<close> have read the name, the classID and the count, and decoded
  \<open>k\<close> entries, fewer than the count; let the next entry have a key and then 4 bytes that
  are not a registered tag. Then \<open>Descriptor.read\<close> fails with \<open>ValueError\<close>, the
  exception that the source raises for an unknown tag. Likewise \<open>List.read\<close>, when after
  \<open>k\<close> items the next 4 bytes are not a registered tag. Nothing is skipped: the loop stops
  at that entry.
\<close>

theorem unregistered_tag_fails:
  "(read_unicode_string (Some 1) st = Inr (name, st1) \<and>
    read_length_and_key K st1 = Inr (classID, st2) \<and>
    read_fmt_I st2 = Inr (count, st3) \<and> k < count \<and>
    for_range k (Descriptor_read_item K T) [] st3 = Inr (pairs, st4) \<and>
    read_length_and_key K st4 = Inr (key, st5) \<and>
    \<not> is_registered K T (take 4 (unread st5)) \<longrightarrow>
      Descriptor_read K T c st = Inl ValueError) \<and>
   (read_fmt_I st = Inr (count, st1) \<and> k < count \<and>
    for_range k (List_read_item K T) [] st1 = Inr (items, st2) \<and>
    \<not> is_registered K T (take 4 (unread st2)) \<longrightarrow>
      List_read K T c st = Inl ValueError)"
proof (intro conjI impI; elim conjE)
  assume "read_unicode_string (Some 1) st = Inr (name, st1)"
    "read_length_and_key K st1 = Inr (classID, st2)"
    "read_fmt_I st2 = Inr (count, st3)" "k < count"
    "for_range k (Descriptor_read_item K T) [] st3 = Inr (pairs, st4)"
    "read_length_and_key K st4 = Inr (key, st5)"
    "\<not> is_registered K T (take 4 (unread st5))"
  then show "Descriptor_read K T c st = Inl ValueError"
    using for_range_fail [of k "Descriptor_read_item K T" "[]" st3 pairs st4 ValueError count]
      Descriptor_read_item_unregistered [of K st4 key st5 T]
    by (simp add: Descriptor_read_def)
next
  assume "read_fmt_I st = Inr (count, st1)" "k < count"
    "for_range k (List_read_item K T) [] st1 = Inr (items, st2)"
    "\<not> is_registered K T (take 4 (unread st2))"
  then show "List_read K T c st = Inl ValueError"
    using for_range_fail [of k "List_read_item K T" "[]" st1 items st2 ValueError count]
      List_read_item_unregistered [of K T st2]
    by (simp add: List_read_def)
qed

theorem unregistered_tag_fails_witness:
  "Descriptor_read sample_constants (TYPES_get sample_constants 1) Descriptor_cls
      \<lparr>unread = unknown_tag_descriptor_bytes, warned = []\<rparr> = Inl ValueError \<and>
   List_read sample_constants (TYPES_get sample_constants 1) List_cls
      \<lparr>unread = unknown_tag_list_bytes, warned = []\<rparr> = Inl ValueError"
proof -
  let ?K = sample_constants
  let ?T = "TYPES_get sample_constants 1"
  let ?d = "\<lambda>n. \<lparr>unread = drop n unknown_tag_descriptor_bytes, warned = []\<rparr>"
  let ?l = "\<lambda>n. \<lparr>unread = drop n unknown_tag_list_bytes, warned = []\<rparr>"
  have d: "read_unicode_string (Some 1) (?d 0) = Inr ([], ?d 4)"
    "read_length_and_key ?K (?d 4) = Inr (ClassID ''null'', ?d 12)"
    "read_fmt_I (?d 12) = Inr (2, ?d 16)"
    "for_range 1 (Descriptor_read_item ?K ?T) [] (?d 16) =
       Inr ([(RawKey ''Nm  '', Some (Bool_obj True))], ?d 29)"
    "read_length_and_key ?K (?d 29) = Inr (RawKey ''Opct'', ?d 37)"
    "\<not> is_registered ?K ?T (take 4 (unread (?d 37)))"
    by (simp_all add: unknown_tag_descriptor_bytes_def sample_constants_def is_registered_def
        read_eval_simps eval_simps)
  have l: "read_fmt_I (?l 0) = Inr (2, ?l 4)"
    "for_range 1 (List_read_item ?K ?T) [] (?l 4) = Inr ([Some (Bool_obj True)], ?l 9)"
    "\<not> is_registered ?K ?T (take 4 (unread (?l 9)))"
    by (simp_all add: unknown_tag_list_bytes_def sample_constants_def is_registered_def
        read_eval_simps eval_simps)
  from unregistered_tag_fails [where K = ?K and T = ?T and st = "?d 0" and name = "[]"
      and ?st1.0 = "?d 4" and classID = "ClassID ''null''" and ?st2.0 = "?d 12" and count = 2
      and ?st3.0 = "?d 16" and k = 1 and pairs = "[(RawKey ''Nm  '', Some (Bool_obj True))]"
      and ?st4.0 = "?d 29" and key = "RawKey ''Opct''" and ?st5.0 = "?d 37"
      and c = Descriptor_cls] d
  have "Descriptor_read ?K ?T Descriptor_cls (?d 0) = Inl ValueError"
    by simp
  moreover
  from unregistered_tag_fails [where K = ?K and T = ?T and st = "?l 0" and count = 2
      and ?st1.0 = "?l 4" and k = 1 and items = "[Some (Bool_obj True)]" and ?st2.0 = "?l 9"
      and c = List_cls] l
  have "List_read ?K ?T List_cls (?l 0) = Inl ValueError"
    by simp
  ultimately show ?thesis by simp
qed

lemma Descriptor_read_item_None:
  assumes "read_length_and_key K st = Inr (key, st1)"
    and "OSType K (take 4 (unread st1)) = Inr t" and "T t = Some decoder"
    and "decoder (st1\<lparr>unread := drop 4 (unread st1)\<rparr>) = Inr (None, st2)"
  shows "Descriptor_read_item K T st = Inl NameError"
  using assms by (simp add: Descriptor_read_item_def fp_read_def)

text \<open>
  C5 fails on the code. When the decoder of an entry returns \<open>None\<close>, the source goes to
  \<open>warnings.warn\<close>, and \<open>warnings\<close> is a name that the module does not import: the
  entry is not recorded, \<open>Descriptor.read\<close> ends with \<open>NameError\<close>.
\<close>

theorem Descriptor_read_None_value_raises:
  "Descriptor_read sample_constants none_decoder_registry Descriptor_cls
      \<lparr>unread = none_value_bytes, warned = []\<rparr> = Inl NameError"
  by (simp add: none_decoder_registry_def none_value_bytes_def sample_constants_def
      read_eval_simps eval_simps)

lemma read_exact_eq_Inr:
  "read_exact n st = Inr (bs, st') \<longleftrightarrow>
     n \<le> length (unread st) \<and> bs = take n (unread st) \<and> st' = st\<lparr>unread := drop n (unread st)\<rparr>"
  by (auto simp: read_exact_def fp_read_def)

text \<open>
  C10. A unit code that no member of \<open>UnitFloatType\<close> has is fatal: on a stream that
  holds the unit and the float, \<open>UnitFloat.read\<close> fails with the \<open>ValueError\<close> of the
  converter, and so does \<open>UnitFloats.read\<close> on a stream that holds the unit, the count and
  the floats. On no stream that starts with such a code does either of them return an
  element, and a descriptor entry with the tag of a unit float fails with it.
\<close>

theorem unknown_unit_is_fatal:
  assumes "length u = 4" and "u \<notin> set (UnitFloatType_values K)"
  shows "(length x = 8 \<longrightarrow>
            UnitFloat_read K \<lparr>unread = u @ x @ rest, warned = lg\<rparr> = Inl ValueError) \<and>
         (length cnt = 4 \<and> length xs = 8 * be_nat cnt \<longrightarrow>
            UnitFloats_read K \<lparr>unread = u @ cnt @ xs @ rest, warned = lg\<rparr> = Inl ValueError) \<and>
         (\<exists>e. UnitFloat_read K \<lparr>unread = u @ rest, warned = lg\<rparr> = Inl e) \<and>
         (\<exists>e. UnitFloats_read K \<lparr>unread = u @ rest, warned = lg\<rparr> = Inl e) \<and>
         (length x = 8 \<and> read_length_and_key K st = Inr (key, \<lparr>unread = tag @ u @ x @ rest, warned = lg\<rparr>) \<and>
          length tag = 4 \<and> OSType K tag = Inr UNIT_FLOAT \<longrightarrow>
            Descriptor_read_item K (TYPES_get K (Suc d)) st = Inl ValueError)"
proof -
  have a: "UnitFloat_read K \<lparr>unread = u @ x @ r, warned = l\<rparr> = Inl ValueError"
    if "length x = 8" for x r l
  proof -
    have "read_exact 12 \<lparr>unread = (u @ x) @ r, warned = l\<rparr> =
        Inr (u @ x, \<lparr>unread = r, warned = l\<rparr>)"
      using assms(1) that by (intro read_exact_append) simp
    then show ?thesis
      using assms by (simp add: UnitFloat_read_def read_fmt_4sd_def UnitFloat_init_def
          UnitFloatType_def)
  qed
  have b: "UnitFloats_read K \<lparr>unread = u @ cnt @ xs @ rest, warned = lg\<rparr> = Inl ValueError"
    if "length cnt = 4" "length xs = 8 * be_nat cnt"
  proof -
    have "read_exact 8 \<lparr>unread = (u @ cnt) @ xs @ rest, warned = lg\<rparr> =
        Inr (u @ cnt, \<lparr>unread = xs @ rest, warned = lg\<rparr>)"
      using assms(1) that by (intro read_exact_append) simp
    then show ?thesis
      using assms that
      by (simp add: UnitFloats_read_def read_fmt_4sI_def read_fmt_doubles_def read_exact_append
          UnitFloats_init_def UnitFloatType_def)
  qed
  have c: "\<exists>e. UnitFloat_read K \<lparr>unread = u @ rest, warned = lg\<rparr> = Inl e"
    using assms
    by (cases "read_exact 12 \<lparr>unread = u @ rest, warned = lg\<rparr>")
      (auto simp: UnitFloat_read_def read_fmt_4sd_def UnitFloat_init_def UnitFloatType_def
        read_exact_eq_Inr)
  have d: "\<exists>e. UnitFloats_read K \<lparr>unread = u @ rest, warned = lg\<rparr> = Inl e"
  proof (cases "read_exact 8 \<lparr>unread = u @ rest, warned = lg\<rparr>")
    case (Inl e)
    then show ?thesis
      by (simp add: UnitFloats_read_def read_fmt_4sI_def)
  next
    case (Inr r)
    then obtain bs st1 where r: "r = (bs, st1)" "take 4 bs = u"
      using assms(1) by (cases r) (auto simp: read_exact_eq_Inr)
    show ?thesis
    proof (cases "read_fmt_doubles (be_nat (drop 4 bs)) st1")
      case (Inl e)
      with Inr r show ?thesis
        by (simp add: UnitFloats_read_def read_fmt_4sI_def)
    next
      case (Inr r2)
      with \<open>read_exact 8 \<lparr>unread = u @ rest, warned = lg\<rparr> = Inr r\<close> r assms(2) show ?thesis
        by (cases r2)
          (simp add: UnitFloats_read_def read_fmt_4sI_def UnitFloats_init_def UnitFloatType_def)
    qed
  qed
  have e: "Descriptor_read_item K (TYPES_get K (Suc d)) st = Inl ValueError"
    if "length x = 8"
      "read_length_and_key K st = Inr (key, \<lparr>unread = tag @ u @ x @ rest, warned = lg\<rparr>)"
      "length tag = 4" "OSType K tag = Inr UNIT_FLOAT"
    using that a [of x rest lg]
    by (simp add: Descriptor_read_item_def fp_read_def TYPES_get_def as_decoder_def
        cls_read_simps)
  from a b c d e show ?thesis by blast
qed

theorem unknown_unit_is_fatal_witness:
  "UnitFloat_read sample_constants
      \<lparr>unread = ''#Xyz'' @ replicate 8 (CHR 0x00) @ ''more'', warned = []\<rparr> = Inl ValueError \<and>
   UnitFloats_read sample_constants
      \<lparr>unread = ''#Xyz'' @ [CHR 0x00, CHR 0x00, CHR 0x00, CHR 0x01] @ replicate 8 (CHR 0x00) @ ''more'',
        warned = []\<rparr> = Inl ValueError"
proof -
  have u: "length ''#Xyz'' = 4" "''#Xyz'' \<notin> set (UnitFloatType_values sample_constants)"
    by (simp_all add: sample_constants_def)
  have x: "length (replicate 8 (CHR 0x00)) = 8"
    "length [CHR 0x00, CHR 0x00, CHR 0x00, CHR 0x01] = 4"
    "length (replicate 8 (CHR 0x00)) = 8 * be_nat [CHR 0x00, CHR 0x00, CHR 0x00, CHR 0x01]"
    by (simp_all add: be_nat_def)
  from unknown_unit_is_fatal [OF u, where x = "replicate 8 (CHR 0x00)"
      and cnt = "[CHR 0x00, CHR 0x00, CHR 0x00, CHR 0x01]" and xs = "replicate 8 (CHR 0x00)"
      and rest = "''more''" and lg = "[]"] x
  show ?thesis by blast
qed

lemma padding_size_Some: "padding_size (Some p) (4 + 2 * n) = (if odd n then 2 else 0)"
proof (cases "odd n")
  case True
  then obtain k where "n = 2 * k + 1" by (auto elim: oddE)
  then have "(4 + 2 * n) mod 4 = 2" by presburger
  with True show ?thesis by (simp add: padding_size_def)
next
  case False
  then obtain k where "n = 2 * k" by (auto elim: evenE)
  then have "(4 + 2 * n) mod 4 = 0" by presburger
  with False show ?thesis by (simp add: padding_size_def)
qed

lemma padding_size_None: "padding_size None n = 0"
  by (simp add: padding_size_def)

lemma read_unicode_string_append:
  "length s < 2 ^ 32 \<Longrightarrow>
   read_unicode_string p
     \<lparr>unread = nat_be 4 (length s) @ utf16_be_encode s
        @ replicate (padding_size p (4 + 2 * length s)) (CHR 0x00) @ rest, warned = lg\<rparr> =
     Inr (s, \<lparr>unread = rest, warned = lg\<rparr>)"
  using decodes_read_unicode_string [of s p] by (simp add: decodes_def del: nat_be.simps)

text \<open>
  C7. The name of a descriptor and the payload of a string are written and read in the
  padded mode: what is written is the character count, the text and as many zero bytes as
  bring the length to a multiple of 4, and the read skips them. The names of
  \<open>Property\<close>, \<open>Class\<close>, \<open>Offset\<close> and \<open>EnumeratedReference\<close> are written and read
  without that padding, the next field following the text at once; and the two keys of
  \<open>Enum\<close> are written as keys, with no padding.
\<close>

theorem string_padding_modes:
  "(write_unicode_string s (Some 1) out = Inr (n, out') \<longrightarrow>
      n mod 4 = 0 \<and>
      out' = out @ nat_be 4 (length s) @ utf16_be_encode s
               @ replicate (if odd (length s) then 2 else 0) (CHR 0x00)) \<and>
   (write_unicode_string s None out = Inr (n, out') \<longrightarrow>
      n = 4 + 2 * length s \<and> out' = out @ nat_be 4 (length s) @ utf16_be_encode s) \<and>
   write_element K (Descriptor_obj c s classID items) =
     wthen (write_unicode_string s (Some 1))
       (wthen (write_length_and_key classID)
          (wthen (write_fmt_I (length items)) (write_dict_items K items))) \<and>
   write_element K (String_obj c s) = write_unicode_string s (Some 1) \<and>
   write_element K (Property_obj s classID keyID) =
     wthen (write_unicode_string s None)
       (wthen (write_length_and_key classID) (write_length_and_key keyID)) \<and>
   write_element K (Class_obj c s classID) =
     wthen (write_unicode_string s None) (write_length_and_key classID) \<and>
   write_element K (Offset_obj s classID v) =
     wthen (write_unicode_string s None)
       (wthen (write_length_and_key classID)
          (\<lambda>out. if v < 0 then Inl UnrepresentableValueError else write_fmt_I (nat v) out)) \<and>
   write_element K (EnumeratedReference_obj s classID typeID enum) =
     wthen (write_unicode_string s None)
       (wthen (write_length_and_key classID)
          (wthen (write_length_and_key typeID) (write_length_and_key enum))) \<and>
   write_element K (Enum_obj typeID enum) =
     wthen (write_length_and_key typeID) (write_length_and_key enum) \<and>
   (length s < 2 ^ 32 \<and> decodes (read_length_and_key K) kb k \<and>
    decodes (read_length_and_key K) kb2 k2 \<and> decodes (read_length_and_key K) kb3 k3 \<longrightarrow>
      Descriptor_read K T c
          \<lparr>unread = nat_be 4 (length s) @ utf16_be_encode s
             @ replicate (if odd (length s) then 2 else 0) (CHR 0x00) @ kb @ nat_be 4 0 @ rest,
           warned = lg\<rparr> =
        Inr (Descriptor_obj c s k [], \<lparr>unread = rest, warned = lg\<rparr>) \<and>
      String_read c
          \<lparr>unread = nat_be 4 (length s) @ utf16_be_encode s
             @ replicate (if odd (length s) then 2 else 0) (CHR 0x00) @ rest, warned = lg\<rparr> =
        Inr (String_obj c s, \<lparr>unread = rest, warned = lg\<rparr>) \<and>
      Property_read K
          \<lparr>unread = nat_be 4 (length s) @ utf16_be_encode s @ kb @ kb2 @ rest, warned = lg\<rparr> =
        Inr (Property_obj s k k2, \<lparr>unread = rest, warned = lg\<rparr>) \<and>
      Class_read K c
          \<lparr>unread = nat_be 4 (length s) @ utf16_be_encode s @ kb @ rest, warned = lg\<rparr> =
        Inr (Class_obj c s k, \<lparr>unread = rest, warned = lg\<rparr>) \<and>
      Offset_read K
          \<lparr>unread = nat_be 4 (length s) @ utf16_be_encode s @ kb @ nat_be 4 0 @ rest,
            warned = lg\<rparr> =
        Inr (Offset_obj s k 0, \<lparr>unread = rest, warned = lg\<rparr>) \<and>
      EnumeratedReference_read K
          \<lparr>unread = nat_be 4 (length s) @ utf16_be_encode s @ kb @ kb2 @ kb3 @ rest,
            warned = lg\<rparr> =
        Inr (EnumeratedReference_obj s k k2 k3, \<lparr>unread = rest, warned = lg\<rparr>) \<and>
      Enum_read K \<lparr>unread = kb @ kb2 @ rest, warned = lg\<rparr> =
        Inr (Enum_obj k k2, \<lparr>unread = rest, warned = lg\<rparr>))"
proof -
  have padded: "n mod 4 = 0 \<and>
      out' = out @ nat_be 4 (length s) @ utf16_be_encode s
               @ replicate (if odd (length s) then 2 else 0) (CHR 0x00)"
    if "write_unicode_string s (Some 1) out = Inr (n, out')"
  proof -
    from that have n: "n = 4 + 2 * length s + (if odd (length s) then 2 else 0)"
      and o: "out' = out @ nat_be 4 (length s) @ utf16_be_encode s
               @ replicate (if odd (length s) then 2 else 0) (CHR 0x00)"
      by (simp_all add: write_unicode_string_eq_Inr padding_size_Some del: nat_be.simps)
    have "n mod 4 = 0"
    proof (cases "odd (length s)")
      case True
      then obtain j where "length s = 2 * j + 1" by (auto elim: oddE)
      with n True have "n = 4 * (j + 2)" by simp
      then show ?thesis by simp
    next
      case False
      then obtain j where "length s = 2 * j" by (auto elim: evenE)
      with n False have "n = 4 * (j + 1)" by simp
      then show ?thesis by simp
    qed
    with o show ?thesis by simp
  qed
  have plain: "n = 4 + 2 * length s \<and> out' = out @ nat_be 4 (length s) @ utf16_be_encode s"
    if "write_unicode_string s None out = Inr (n, out')"
    using that by (simp add: write_unicode_string_eq_Inr padding_size_None del: nat_be.simps)
  have writes:
    "write_element K (String_obj c s) = write_unicode_string s (Some 1)"
    "write_element K (Property_obj s classID keyID) =
       wthen (write_unicode_string s None)
         (wthen (write_length_and_key classID) (write_length_and_key keyID))"
    "write_element K (Class_obj c s classID) =
       wthen (write_unicode_string s None) (write_length_and_key classID)"
    "write_element K (Offset_obj s classID v) =
       wthen (write_unicode_string s None)
         (wthen (write_length_and_key classID)
            (\<lambda>out. if v < 0 then Inl UnrepresentableValueError else write_fmt_I (nat v) out))"
    "write_element K (EnumeratedReference_obj s classID typeID enum) =
       wthen (write_unicode_string s None)
         (wthen (write_length_and_key classID)
            (wthen (write_length_and_key typeID) (write_length_and_key enum)))"
    "write_element K (Enum_obj typeID enum) =
       wthen (write_length_and_key typeID) (write_length_and_key enum)"
    by (simp_all add: write_element_scalars String_write_def Property_write_def Class_write_def
        Offset_write_def EnumeratedReference_write_def Enum_write_def)
  have reads: "Descriptor_read K T c
          \<lparr>unread = nat_be 4 (length s) @ utf16_be_encode s
             @ replicate (if odd (length s) then 2 else 0) (CHR 0x00) @ kb @ nat_be 4 0 @ rest,
           warned = lg\<rparr> =
        Inr (Descriptor_obj c s k [], \<lparr>unread = rest, warned = lg\<rparr>) \<and>
      String_read c
          \<lparr>unread = nat_be 4 (length s) @ utf16_be_encode s
             @ replicate (if odd (length s) then 2 else 0) (CHR 0x00) @ rest, warned = lg\<rparr> =
        Inr (String_obj c s, \<lparr>unread = rest, warned = lg\<rparr>) \<and>
      Property_read K
          \<lparr>unread = nat_be 4 (length s) @ utf16_be_encode s @ kb @ kb2 @ rest, warned = lg\<rparr> =
        Inr (Property_obj s k k2, \<lparr>unread = rest, warned = lg\<rparr>) \<and>
      Class_read K c
          \<lparr>unread = nat_be 4 (length s) @ utf16_be_encode s @ kb @ rest, warned = lg\<rparr> =
        Inr (Class_obj c s k, \<lparr>unread = rest, warned = lg\<rparr>) \<and>
      Offset_read K
          \<lparr>unread = nat_be 4 (length s) @ utf16_be_encode s @ kb @ nat_be 4 0 @ rest,
            warned = lg\<rparr> =
        Inr (Offset_obj s k 0, \<lparr>unread = rest, warned = lg\<rparr>) \<and>
      EnumeratedReference_read K
          \<lparr>unread = nat_be 4 (length s) @ utf16_be_encode s @ kb @ kb2 @ kb3 @ rest,
            warned = lg\<rparr> =
        Inr (EnumeratedReference_obj s k k2 k3, \<lparr>unread = rest, warned = lg\<rparr>) \<and>
      Enum_read K \<lparr>unread = kb @ kb2 @ rest, warned = lg\<rparr> =
        Inr (Enum_obj k k2, \<lparr>unread = rest, warned = lg\<rparr>)"
    if small: "length s < 2 ^ 32" and k: "decodes (read_length_and_key K) kb k"
      "decodes (read_length_and_key K) kb2 k2" "decodes (read_length_and_key K) kb3 k3"
  proof -
    have p: "\<And>r l. read_unicode_string (Some 1)
        \<lparr>unread = nat_be 4 (length s) @ utf16_be_encode s
           @ replicate (if odd (length s) then 2 else 0) (CHR 0x00) @ r, warned = l\<rparr> =
        Inr (s, \<lparr>unread = r, warned = l\<rparr>)"
      using read_unicode_string_append [OF small, of "Some 1"]
      by (simp add: padding_size_Some del: nat_be.simps)
    have u: "\<And>r l. read_unicode_string None
        \<lparr>unread = nat_be 4 (length s) @ utf16_be_encode s @ r, warned = l\<rparr> =
        Inr (s, \<lparr>unread = r, warned = l\<rparr>)"
      using read_unicode_string_append [OF small, of None]
      by (simp add: padding_size_None del: nat_be.simps)
    have z: "\<And>r l. read_fmt_I \<lparr>unread = nat_be 4 0 @ r, warned = l\<rparr> =
        Inr (0, \<lparr>unread = r, warned = l\<rparr>)"
      by (rule read_fmt_I_append) simp
    note kk = k [unfolded decodes_def, rule_format]
    show ?thesis
      by (simp add: p u z kk Descriptor_read_def Descriptor_init_def OrderedDict_def
          String_read_def Property_read_def Class_read_def Offset_read_def
          EnumeratedReference_read_def Enum_read_def
          del: nat_be.simps One_nat_def split del: if_split)
  qed
  from padded plain writes reads show ?thesis
    unfolding write_element_Descriptor by blast
qed

theorem string_padding_modes_witness:
  "write_unicode_string [0x41] (Some 1) [] =
     Inr (8, [CHR 0x00, CHR 0x00, CHR 0x00, CHR 0x01, CHR 0x00, CHR 0x41, CHR 0x00, CHR 0x00]) \<and>
   write_unicode_string [0x41] None [] =
     Inr (6, [CHR 0x00, CHR 0x00, CHR 0x00, CHR 0x01, CHR 0x00, CHR 0x41]) \<and>
   String_read String_cls
      \<lparr>unread = [CHR 0x00, CHR 0x00, CHR 0x00, CHR 0x01, CHR 0x00, CHR 0x41, CHR 0x00, CHR 0x00]
                 @ ''rest'', warned = []\<rparr> =
     Inr (String_obj String_cls [0x41], \<lparr>unread = ''rest'', warned = []\<rparr>) \<and>
   Class_read sample_constants Class_cls
      \<lparr>unread = [CHR 0x00, CHR 0x00, CHR 0x00, CHR 0x01, CHR 0x00, CHR 0x41]
                 @ [CHR 0x00, CHR 0x00, CHR 0x00, CHR 0x00] @ ''null'' @ ''rest'', warned = []\<rparr> =
     Inr (Class_obj Class_cls [0x41] (ClassID ''null''), \<lparr>unread = ''rest'', warned = []\<rparr>)"
proof -
  let ?kb = "[CHR 0x00, CHR 0x00, CHR 0x00, CHR 0x00] @ ''null''"
  have w1: "write_unicode_string [0x41] (Some 1) [] =
     Inr (8, [CHR 0x00, CHR 0x00, CHR 0x00, CHR 0x01, CHR 0x00, CHR 0x41, CHR 0x00, CHR 0x00])"
    by (simp add: write_eval_simps eval_simps)
  have w2: "write_unicode_string [0x41] None [] =
     Inr (6, [CHR 0x00, CHR 0x00, CHR 0x00, CHR 0x01, CHR 0x00, CHR 0x41])"
    by (simp add: write_eval_simps eval_simps)
  have k: "decodes (read_length_and_key sample_constants) ?kb (ClassID ''null'')"
    by (simp add: decodes_def sample_constants_def read_length_and_key_def read_fmt_I_def
        read_exact_def fp_read_def be_nat_def DescriptorClassID_def)
  have small: "length [0x41 :: 16 word] < 2 ^ 32"
    by simp
  have bytes: "nat_be 4 (length [0x41 :: 16 word]) = [CHR 0x00, CHR 0x00, CHR 0x00, CHR 0x01]"
    "utf16_be_encode [0x41] = [CHR 0x00, CHR 0x41]"
    "replicate (if odd (length [0x41 :: 16 word]) then 2 else 0) (CHR 0x00) = [CHR 0x00, CHR 0x00]"
    by (simp_all add: utf16_be_encode_def eval_simps)
  from string_padding_modes [where s = "[0x41]" and K = sample_constants and c = String_cls
      and kb = ?kb and k = "ClassID ''null''" and ?kb2.0 = ?kb and ?k2.0 = "ClassID ''null''"
      and ?kb3.0 = ?kb and ?k3.0 = "ClassID ''null''" and rest = "''rest''" and lg = "[]"]
    small k
  have r1: "String_read String_cls
      \<lparr>unread = nat_be 4 (length [0x41 :: 16 word]) @ utf16_be_encode [0x41]
         @ replicate (if odd (length [0x41 :: 16 word]) then 2 else 0) (CHR 0x00) @ ''rest'',
        warned = []\<rparr> =
     Inr (String_obj String_cls [0x41], \<lparr>unread = ''rest'', warned = []\<rparr>)"
    by blast
  from string_padding_modes [where s = "[0x41]" and K = sample_constants and c = Class_cls
      and kb = ?kb and k = "ClassID ''null''" and ?kb2.0 = ?kb and ?k2.0 = "ClassID ''null''"
      and ?kb3.0 = ?kb and ?k3.0 = "ClassID ''null''" and rest = "''rest''" and lg = "[]"]
    small k
  have r2: "Class_read sample_constants Class_cls
      \<lparr>unread = nat_be 4 (length [0x41 :: 16 word]) @ utf16_be_encode [0x41] @ ?kb @ ''rest'',
        warned = []\<rparr> =
     Inr (Class_obj Class_cls [0x41] (ClassID ''null''), \<lparr>unread = ''rest'', warned = []\<rparr>)"
    by blast
  from w1 w2 r1 r2 show ?thesis
    unfolding bytes by simp
qed













end
